theory Spec2Isabelle
  imports Complex_Main
begin

section \<open>The logging helper of csa/utils/logger.py\<close>

text \<open>
  The module configures Python's logging facility: \<open>cleanup_old_logs\<close> deletes old
  log files, \<open>CustomFormatter\<close> renders a record, \<open>setup_logger\<close> builds a logger and
  \<open>get_logger\<close> is its public entry point. The functions act on the file system, on the
  process-wide registry of loggers and read the environment and the clock. The embedding
  makes each of these explicit: a \<open>world\<close> that is passed in and returned, the values read
  from the environment and the clock as an \<open>ambient\<close> record, and exceptions as the left
  summand of a result.
\<close>

subsection \<open>Exceptions\<close>

text \<open>
  The exceptions the code can meet. Each is a subclass of Python's \<open>Exception\<close>, so the
  clause \<open>except Exception\<close> catches every one of them.
\<close>

datatype exn = OSError | IndexError | KeyError | ValueError | OverflowError

subsection \<open>Loggers, handlers, formatters\<close>

text \<open>The named levels of the logging module.\<close>

datatype level = NOTSET | DEBUG | INFO | WARNING | ERROR | CRITICAL

record formatter =
  fmt :: string
  datefmt :: "string option"

text \<open>
  A handler writes to the console (\<open>logging.StreamHandler()\<close>, standard error) or to a
  file (\<open>logging.FileHandler(path, mode, encoding)\<close>).
\<close>

datatype sink = StreamHandler | FileHandler string string string

record handler =
  sink :: sink
  hlevel :: level
  hformatter :: "formatter option"

record logger =
  lvl :: level
  handlers :: "handler list"
  propagate :: bool

subsection \<open>The file system\<close>

text \<open>
  A directory is the list of its entries in the order the operating system lists them.
  Of an entry the code observes the modification time that \<open>stat\<close> reports (\<open>None\<close> when
  \<open>stat\<close> raises, as it does on a dangling symbolic link), whether \<open>unlink\<close> succeeds
  (it fails on a subdirectory, on a file in use, without permission), whether the entry can
  be opened for appending, and its content. Times are seconds since the epoch; a float
  is the real number it stands for, and the modification time of an entry is the float
  that \<open>stat\<close> reports. A path names a directory, something that is not a directory,
  or nothing.
\<close>

record entry =
  st_mtime :: "real option"
  unlink_ok :: bool
  open_ok :: bool
  content :: string

datatype node = Dir "(string \<times> entry) list" | NotDir

text \<open>The calls that can change the file system, in the order they were made.\<close>

datatype syscall = Makedirs string | Unlink string string | Open string string

record world =
  files :: "string \<Rightarrow> node option"
  syscalls :: "syscall list"
  loggers :: "string \<Rightarrow> logger option"

text \<open>\<open>os.path.exists\<close>.\<close>

definition path_exists :: "world \<Rightarrow> string \<Rightarrow> bool" where
  "path_exists w p = (files w p \<noteq> None)"

definition listdir :: "world \<Rightarrow> string \<Rightarrow> (string \<times> entry) list" where
  "listdir w p = (case files w p of Some (Dir es) \<Rightarrow> es | _ \<Rightarrow> [])"

definition endswith :: "string \<Rightarrow> string \<Rightarrow> bool" where
  "endswith s suf = (length suf \<le> length s \<and> drop (length s - length suf) s = suf)"

text \<open>
  \<open>Path(log_dir).glob("*.log")\<close>: the names in the directory that end in \<open>.log\<close>, in
  listing order; on a path that is not a directory the generator is empty. The pattern
  also matches subdirectories and names that start with a dot.
\<close>

definition glob_log :: "world \<Rightarrow> string \<Rightarrow> string list" where
  "glob_log w p = filter (\<lambda>n. endswith n ''.log'') (map fst (listdir w p))"

text \<open>\<open>log_file.stat().st_mtime\<close>, on the file system as it is when the call is made.\<close>

definition stat_mtime :: "world \<Rightarrow> string \<Rightarrow> string \<Rightarrow> exn + real" where
  "stat_mtime w p n =
     (case map_of (listdir w p) n of
        None \<Rightarrow> Inl OSError
      | Some e \<Rightarrow> (case st_mtime e of None \<Rightarrow> Inl OSError | Some m \<Rightarrow> Inr m))"

text \<open>\<open>log_file.unlink()\<close>.\<close>

definition unlink :: "world \<Rightarrow> string \<Rightarrow> string \<Rightarrow> (exn + unit) \<times> world" where
  "unlink w p n =
     (let w1 = w\<lparr>syscalls := syscalls w @ [Unlink p n]\<rparr> in
      case map_of (listdir w p) n of
        None \<Rightarrow> (Inl OSError, w1)
      | Some e \<Rightarrow>
          if unlink_ok e
          then (Inr (), w1\<lparr>files := (files w)(p \<mapsto> Dir (filter (\<lambda>(k, _). k \<noteq> n) (listdir w p)))\<rparr>)
          else (Inl OSError, w1))"

subsection \<open>cleanup_old_logs\<close>

text \<open>
  The loop over the matches of the glob. The \<open>stat\<close> call stands outside the \<open>try\<close>, so
  its exception leaves the function; the exception of \<open>unlink\<close> is caught and dropped.
\<close>

fun cleanup_loop :: "world \<Rightarrow> string \<Rightarrow> real \<Rightarrow> string list \<Rightarrow> (exn + unit) \<times> world" where
  "cleanup_loop w p cutoff_time [] = (Inr (), w)"
| "cleanup_loop w p cutoff_time (n # ns) =
     (case stat_mtime w p n of
        Inl e \<Rightarrow> (Inl e, w)
      | Inr m \<Rightarrow>
          if m < cutoff_time
          then (case unlink w p n of
                  (Inl e, w') \<Rightarrow> cleanup_loop w' p cutoff_time ns
                | (Inr u, w') \<Rightarrow> cleanup_loop w' p cutoff_time ns)
          else cleanup_loop w p cutoff_time ns)"

text \<open>
  The arithmetic of line 22 is float arithmetic. A float is a real number here, and the
  result of an operation is the nearest float of the exact result, ties going to the even
  neighbour: \<open>to_float\<close> rounds to 53 binary digits (and to multiples of \<open>2 ^ -1074\<close>
  near zero). The times of a clock are far below \<open>2 ^ 1024\<close>, where the floats end.
\<close>

definition round_half_even :: "real \<Rightarrow> int" where
  "round_half_even y =
     (let f = \<lfloor>y\<rfloor> in
      if y - of_int f < 1 / 2 then f
      else if 1 / 2 < y - of_int f then f + 1
      else if even f then f else f + 1)"

definition to_float :: "real \<Rightarrow> real" where
  "to_float x =
     (if x = 0 then 0
      else
        let e = max \<lfloor>log 2 \<bar>x\<bar>\<rfloor> (- 1022);
            q = 2 powr (of_int e - 52)
        in q * of_int (round_half_even (x / q)))"

text \<open>
  The conversion of an integer to a float, which Python makes of the right operand of
  \<open>current_time - (days * 24 * 60 * 60)\<close>: an integer that rounds beyond the largest
  float raises \<open>OverflowError\<close>.
\<close>

definition float_of_int :: "int \<Rightarrow> exn + real" where
  "float_of_int n = (if 2 ^ 1024 - 2 ^ 970 \<le> \<bar>n\<bar> then Inl OverflowError else Inr (to_float (of_int n)))"

text \<open>
  \<open>cleanup_old_logs(log_dir, days=7)\<close>; the first argument is the value of
  \<open>time.time()\<close>, and \<open>days = None\<close> stands for the omitted argument.
\<close>

definition cleanup_old_logs :: "real \<Rightarrow> world \<Rightarrow> string \<Rightarrow> int option \<Rightarrow> (exn + unit) \<times> world" where
  "cleanup_old_logs current_time w log_dir days_arg =
     (let days = (case days_arg of None \<Rightarrow> 7 | Some d \<Rightarrow> d) in
      if \<not> path_exists w log_dir then (Inr (), w)
      else
        (case float_of_int (days * 24 * 60 * 60) of
           Inl e \<Rightarrow> (Inl e, w)
         | Inr seconds \<Rightarrow>
             let cutoff_time = to_float (current_time - seconds)
             in cleanup_loop w log_dir cutoff_time (glob_log w log_dir)))"


subsection \<open>Strings\<close>

text \<open>
  The value of \<open>LOG_LEVEL\<close> is a string over code points below 256. \<open>str.strip\<close>
  removes the characters for which \<open>str.isspace\<close> holds from both ends;
  \<open>str.upper\<close> maps the letters a to z to A to Z. (Python maps the other cased
  characters below 256 outside ASCII or, for U+00DF, to SS; no level name holds such
  text, so the lookup below misses either way and they are left as they are.)
\<close>

definition isspace :: "char \<Rightarrow> bool" where
  "isspace c = (c \<in> set [CHR 0x09, CHR 0x0A, CHR 0x0B, CHR 0x0C, CHR 0x0D, CHR 0x1C, CHR 0x1D,
                          CHR 0x1E, CHR 0x1F, CHR 0x20, CHR 0x85, CHR 0xA0])"

definition strip :: "string \<Rightarrow> string" where
  "strip s = rev (dropWhile isspace (rev (dropWhile isspace s)))"

definition letter_pairs :: "(char \<times> char) list" where
  "letter_pairs = zip ''abcdefghijklmnopqrstuvwxyz'' ''ABCDEFGHIJKLMNOPQRSTUVWXYZ''"

definition upper_char :: "char \<Rightarrow> char" where
  "upper_char c = (case map_of letter_pairs c of None \<Rightarrow> c | Some u \<Rightarrow> u)"

definition upper :: "string \<Rightarrow> string" where
  "upper s = map upper_char s"

text \<open>Decimal digits of a natural number, and padding with zeros on the left.\<close>

fun digits :: "nat \<Rightarrow> string" where
  "digits n = (if n < 10 then [''0123456789'' ! n] else digits (n div 10) @ [''0123456789'' ! (n mod 10)])"

declare digits.simps [simp del]

definition zfill :: "nat \<Rightarrow> string \<Rightarrow> string" where
  "zfill width s = replicate (width - length s) CHR ''0'' @ s"

text \<open>\<open>int(x)\<close> on a float truncates towards zero; \<open>f"{i:03d}"\<close> pads with zeros to width 3, the sign included.\<close>

definition py_int :: "real \<Rightarrow> int" where
  "py_int x = (if x < 0 then \<lceil>x\<rceil> else \<lfloor>x\<rfloor>)"

definition format_03d :: "int \<Rightarrow> string" where
  "format_03d i = (if i < 0 then CHR ''-'' # zfill 2 (digits (nat (- i))) else zfill 3 (digits (nat i)))"

subsection \<open>Local time and strftime\<close>

record datetime =
  year :: nat
  month :: nat
  day :: nat
  hour :: nat
  minute :: nat
  second :: nat

text \<open>
  The directives the module uses: \<open>%Y\<close> (four digits), \<open>%m\<close>, \<open>%d\<close>, \<open>%H\<close>, \<open>%M\<close>,
  \<open>%S\<close> (two digits each) and \<open>%%\<close>. Any other directive is copied as it stands.
  The padding of \<open>%Y\<close> is the one Python documents (0001 to 9999). It matters only for
  a year below 1000, where the C library decides and glibc prints the year without
  padding; from the year 1000 on all platforms print the same four digits.
\<close>

definition directive :: "datetime \<Rightarrow> char \<Rightarrow> string" where
  "directive dt d =
     (if d = CHR ''Y'' then zfill 4 (digits (year dt))
      else if d = CHR ''m'' then zfill 2 (digits (month dt))
      else if d = CHR ''d'' then zfill 2 (digits (day dt))
      else if d = CHR ''H'' then zfill 2 (digits (hour dt))
      else if d = CHR ''M'' then zfill 2 (digits (minute dt))
      else if d = CHR ''S'' then zfill 2 (digits (second dt))
      else if d = CHR ''%'' then ''%''
      else [CHR ''%'', d])"

fun strftime :: "datetime \<Rightarrow> string \<Rightarrow> string" where
  "strftime dt [] = []"
| "strftime dt [c] = [c]"
| "strftime dt (c # d # rest) =
     (if c = CHR ''%'' then directive dt d @ strftime dt rest else c # strftime dt (d # rest))"

subsection \<open>The environment and the clock\<close>

text \<open>
  What a call reads from outside: the value of the environment variable \<open>LOG_LEVEL\<close>
  (\<open>None\<close> when it is not set), \<open>time.time()\<close> and \<open>datetime.now()\<close>.
\<close>

record ambient =
  LOG_LEVEL :: "string option"
  time_time :: real
  datetime_now :: datetime

subsection \<open>More of the file system: makedirs, join, split, open\<close>

text \<open>\<open>os.makedirs(p, exist_ok=True)\<close> for a path of one component.\<close>

definition makedirs :: "world \<Rightarrow> string \<Rightarrow> (exn + unit) \<times> world" where
  "makedirs w p =
     (let w1 = w\<lparr>syscalls := syscalls w @ [Makedirs p]\<rparr> in
      case files w p of
        None \<Rightarrow> (Inr (), w1\<lparr>files := (files w)(p \<mapsto> Dir [])\<rparr>)
      | Some (Dir es) \<Rightarrow> (Inr (), w1)
      | Some NotDir \<Rightarrow> (Inl OSError, w1))"

text \<open>\<open>os.path.join(a, b)\<close> of posixpath: an absolute second component replaces the first.\<close>

definition os_path_join :: "string \<Rightarrow> string \<Rightarrow> string" where
  "os_path_join a b =
     (if b \<noteq> [] \<and> hd b = CHR ''/'' then b
      else if a = [] \<or> last a = CHR ''/'' then a @ b
      else a @ ''/'' @ b)"

text \<open>\<open>os.path.split\<close> of posixpath: the directory part and the last component.\<close>

definition os_path_split :: "string \<Rightarrow> string \<times> string" where
  "os_path_split p =
     (let tail = rev (takeWhile (\<lambda>c. c \<noteq> CHR ''/'') (rev p));
          head = take (length p - length tail) p
      in (if head \<noteq> [] \<and> \<not> list_all (\<lambda>c. c = CHR ''/'') head
          then rev (dropWhile (\<lambda>c. c = CHR ''/'') (rev head))
          else head,
          tail))"

text \<open>
  \<open>open(path, mode)\<close> for the append mode: the file is looked up in the directory part
  of the path. An entry that is there is opened as it is, when it can be opened; a missing one
  is created empty. A directory part that is no directory raises.
\<close>

definition open_file :: "real \<Rightarrow> world \<Rightarrow> string \<Rightarrow> string \<Rightarrow> (exn + unit) \<times> world" where
  "open_file now w path mode =
     (let w1 = w\<lparr>syscalls := syscalls w @ [Open path mode]\<rparr>;
          (head, tail) = os_path_split path
      in case files w head of
           Some (Dir es) \<Rightarrow>
             (case map_of es tail of
                Some e \<Rightarrow> if open_ok e then (Inr (), w1) else (Inl OSError, w1)
              | None \<Rightarrow>
                  (Inr (), w1\<lparr>files := (files w)(head \<mapsto>
                     Dir (es @ [(tail, \<lparr>st_mtime = Some now, unlink_ok = True, open_ok = True, content = []\<rparr>)]))\<rparr>))
         | _ \<Rightarrow> (Inl OSError, w1))"

subsection \<open>CustomFormatter\<close>

text \<open>
  Of a log record the formatter reads the level name, the creation time with its
  milliseconds, the message (\<open>record.getMessage()\<close>) and the text of an exception and
  of a stack trace, empty when there is none.
\<close>

record LogRecord =
  levelname :: string
  created :: real
  msecs :: real
  message :: string
  exc_text :: string
  stack_info :: string

definition LEVEL_MAP :: "string \<Rightarrow> string option" where
  "LEVEL_MAP = map_of [(''DEBUG'', ''D''), (''INFO'', ''I''), (''WARNING'', ''W''),
                       (''ERROR'', ''E''), (''CRITICAL'', ''C'')]"

text \<open>
  \<open>formatTime(self, record, datefmt)\<close>; the first argument is
  \<open>datetime.fromtimestamp\<close>, the conversion to local time.
\<close>

definition formatTime :: "(real \<Rightarrow> datetime) \<Rightarrow> LogRecord \<Rightarrow> string option \<Rightarrow> string" where
  "formatTime fromtimestamp record datefmt_arg =
     (let ct = fromtimestamp (created record);
          s = (case datefmt_arg of
                 None \<Rightarrow> strftime ct ''%Y-%m-%d %H:%M:%S''
               | Some f \<Rightarrow> if f \<noteq> [] then strftime ct f else strftime ct ''%Y-%m-%d %H:%M:%S'')
      in s @ ''.'' @ format_03d (py_int (msecs record)))"

text \<open>
  \<open>fmt % d\<close> for a dictionary \<open>d\<close> and a format string whose conversions all have
  the form \<open>%(name)s\<close>: a missing name raises \<open>KeyError\<close>, any other conversion is
  outside the model and reported as \<open>ValueError\<close>.
\<close>

function percent_format :: "(string \<Rightarrow> string option) \<Rightarrow> string \<Rightarrow> exn + string" where
  "percent_format d [] = Inr []"
| "percent_format d (c # rest) =
     (if c \<noteq> CHR ''%'' then
        (case percent_format d rest of Inl e \<Rightarrow> Inl e | Inr s \<Rightarrow> Inr (c # s))
      else
        (case rest of
           [] \<Rightarrow> Inl ValueError
         | p # r1 \<Rightarrow>
             if p \<noteq> CHR ''('' then Inl ValueError
             else
               (case dropWhile (\<lambda>x. x \<noteq> CHR '')'') r1 of
                  q # t # r2 \<Rightarrow>
                    if t \<noteq> CHR ''s'' then Inl ValueError
                    else
                      (case d (takeWhile (\<lambda>x. x \<noteq> CHR '')'') r1) of
                         None \<Rightarrow> Inl KeyError
                       | Some v \<Rightarrow>
                           (case percent_format d r2 of Inl e \<Rightarrow> Inl e | Inr s \<Rightarrow> Inr (v @ s)))
                | _ \<Rightarrow> Inl ValueError)))"
  by pat_completeness auto
termination
proof (relation "measure (\<lambda>(d, s). length s)")
  show "wf (measure (\<lambda>(d, s). length s))" by simp
next
  fix d :: "string \<Rightarrow> string option" and c :: char and rest :: string
  show "((d, rest), (d, c # rest)) \<in> measure (\<lambda>(d, s). length s)" by simp
next
  fix d :: "string \<Rightarrow> string option" and c p q t :: char and rest r1 r2 x23 :: string
  assume "rest = p # r1" and "dropWhile (\<lambda>x. x \<noteq> CHR '')'') r1 = q # x23" and "x23 = t # r2"
  then have "length (q # t # r2) \<le> length r1"
    using length_dropWhile_le [of "\<lambda>x. x \<noteq> CHR '')''" r1] by simp
  then show "((d, r2), (d, c # rest)) \<in> measure (\<lambda>(d, s). length s)"
    using \<open>rest = p # r1\<close> by simp
qed

declare percent_format.simps [simp del]

text \<open>
  \<open>logging.Formatter.format\<close>, the method of the base class: the formatted time is
  stored as \<open>asctime\<close>, the format string is filled in from the attributes of the record,
  and the exception text and the stack trace, when there are any, follow on lines of
  their own. The last argument is the attribute \<open>levelname_short\<close> that the subclass
  has set. Of the attributes of the record the dictionary holds the four that are modelled.
\<close>

definition add_line :: "string \<Rightarrow> string \<Rightarrow> string" where
  "add_line s t = (if t = [] then s else (if s \<noteq> [] \<and> last s = CHR 0x0A then s else s @ [CHR 0x0A]) @ t)"

definition Formatter_format :: "(real \<Rightarrow> datetime) \<Rightarrow> formatter \<Rightarrow> LogRecord \<Rightarrow> string \<Rightarrow> exn + string" where
  "Formatter_format fromtimestamp self record levelname_short =
     (let asctime = formatTime fromtimestamp record (datefmt self);
          attrs = map_of [(''asctime'', asctime), (''levelname_short'', levelname_short),
                          (''levelname'', levelname record), (''message'', message record)]
      in case percent_format attrs (fmt self) of
           Inl e \<Rightarrow> Inl e
         | Inr s \<Rightarrow> Inr (add_line (add_line s (exc_text record)) (stack_info record)))"

text \<open>
  \<open>CustomFormatter.format\<close>. Python evaluates the default \<open>record.levelname[0]\<close>
  before the lookup in \<open>LEVEL_MAP\<close>, so an empty level name raises \<open>IndexError\<close>.
\<close>

definition CustomFormatter_format :: "(real \<Rightarrow> datetime) \<Rightarrow> formatter \<Rightarrow> LogRecord \<Rightarrow> exn + string" where
  "CustomFormatter_format fromtimestamp self record =
     (case levelname record of
        [] \<Rightarrow> Inl IndexError
      | c # cs \<Rightarrow>
          Formatter_format fromtimestamp self record
            (case LEVEL_MAP (levelname record) of None \<Rightarrow> [c] | Some s \<Rightarrow> s))"

subsection \<open>setup_logger and get_logger\<close>

text \<open>
  \<open>logging.getLogger(name)\<close>: no name and the empty name give the root logger; a logger
  that is not yet in the registry is created with no handlers.
\<close>

definition logger_key :: "string option \<Rightarrow> string" where
  "logger_key name = (case name of None \<Rightarrow> ''root'' | Some n \<Rightarrow> if n = [] then ''root'' else n)"

definition getLogger :: "world \<Rightarrow> string option \<Rightarrow> logger" where
  "getLogger w name =
     (case loggers w (logger_key name) of
        Some l \<Rightarrow> l
      | None \<Rightarrow> \<lparr>lvl = (if logger_key name = ''root'' then WARNING else NOTSET), handlers = [], propagate = True\<rparr>)"

definition log_levels :: "string \<Rightarrow> level option" where
  "log_levels = map_of [(''DEBUG'', DEBUG), (''INFO'', INFO), (''WARNING'', WARNING),
                        (''ERROR'', ERROR), (''CRITICAL'', CRITICAL)]"

text \<open>Lines 69 to 80: the level named by \<open>LOG_LEVEL\<close>, or \<open>INFO\<close>.\<close>

definition log_level_of :: "ambient \<Rightarrow> level" where
  "log_level_of a =
     (let log_level_str = upper (strip (case LOG_LEVEL a of None \<Rightarrow> ''INFO'' | Some v \<Rightarrow> v))
      in case log_levels log_level_str of None \<Rightarrow> INFO | Some l \<Rightarrow> l)"

text \<open>The formatter of lines 95 and 96.\<close>

definition the_formatter :: formatter where
  "the_formatter = \<lparr>fmt = ''%(asctime)s [%(levelname_short)s] : %(message)s'',
                    datefmt = Some ''%Y-%m-%d %H:%M:%S''\<rparr>"

text \<open>
  \<open>setup_logger(name, command_name)\<close>. The logger lives in the registry, so each
  assignment to it is an update of the world; an exception leaves the world as the
  statements before it made it. The result is the key of the logger in the registry.
\<close>

definition setup_logger :: "ambient \<Rightarrow> world \<Rightarrow> string option \<Rightarrow> string option \<Rightarrow> (exn + string) \<times> world" where
  "setup_logger a w name command_name =
     (let log_level = log_level_of a;
          key = logger_key name;
          logger0 = getLogger w name;
          logger1 = logger0\<lparr>lvl := log_level\<rparr>;
          logger2 = (if handlers logger1 \<noteq> [] then logger1\<lparr>handlers := []\<rparr> else logger1);
          console_handler = \<lparr>sink = StreamHandler, hlevel = log_level, hformatter = Some the_formatter\<rparr>;
          logger3 = logger2\<lparr>handlers := handlers logger2 @ [console_handler]\<rparr>;
          w3 = w\<lparr>loggers := (loggers w)(key \<mapsto> logger3)\<rparr>;
          no_file = (Inr key, w3\<lparr>loggers := (loggers w3)(key \<mapsto> logger3\<lparr>propagate := False\<rparr>)\<rparr>)
      in case command_name of
           None \<Rightarrow> no_file
         | Some c \<Rightarrow>
             if c = [] then no_file
             else
               (case makedirs w3 ''logs'' of
                  (Inl e, w4) \<Rightarrow> (Inl e, w4)
                | (Inr u, w4) \<Rightarrow>
                    (case cleanup_old_logs (time_time a) w4 ''logs'' (Some 7) of
                       (Inl e, w5) \<Rightarrow> (Inl e, w5)
                     | (Inr u, w5) \<Rightarrow>
                         let log_date = strftime (datetime_now a) ''%Y%m%d'';
                             log_filename = c @ ''-'' @ log_date @ ''.log'';
                             log_filepath = os_path_join ''logs'' log_filename
                         in (case open_file (time_time a) w5 log_filepath ''a'' of
                               (Inl e, w6) \<Rightarrow> (Inl e, w6)
                             | (Inr u, w6) \<Rightarrow>
                                 let file_handler = \<lparr>sink = FileHandler log_filepath ''a'' ''utf-8'',
                                                     hlevel = log_level, hformatter = Some the_formatter\<rparr>;
                                     logger4 = logger3\<lparr>handlers := handlers logger3 @ [file_handler]\<rparr>
                                 in (Inr key, w6\<lparr>loggers := (loggers w6)(key \<mapsto> logger4\<lparr>propagate := False\<rparr>)\<rparr>)))))"

text \<open>\<open>get_logger(name, command_name)\<close>.\<close>

definition get_logger :: "ambient \<Rightarrow> world \<Rightarrow> string option \<Rightarrow> string option \<Rightarrow> (exn + string) \<times> world" where
  "get_logger a w name command_name = setup_logger a w name command_name"

section \<open>Notions used in the statements\<close>

subsection \<open>Old files\<close>

text \<open>
  A retention window overflows when its seconds have no float. The cutoff of a call made
  at \<open>current_time\<close> is the float that line 22 computes: \<open>current_time\<close> less the
  seconds of the window. An entry or a name is stale when the modification time that
  \<open>stat\<close> reports is before a cutoff.
\<close>

definition overflows :: "int option \<Rightarrow> bool" where
  "overflows days_arg =
     (2 ^ 1024 - 2 ^ 970 \<le> \<bar>(case days_arg of None \<Rightarrow> 7 | Some d \<Rightarrow> d) * 24 * 60 * 60 :: int\<bar>)"

definition cutoff :: "real \<Rightarrow> int option \<Rightarrow> real" where
  "cutoff current_time days_arg =
     to_float (current_time - to_float (of_int ((case days_arg of None \<Rightarrow> 7 | Some d \<Rightarrow> d) * 24 * 60 * 60)))"

definition stale :: "real \<Rightarrow> entry \<Rightarrow> bool" where
  "stale cutoff_time e = (case st_mtime e of None \<Rightarrow> False | Some m \<Rightarrow> m < cutoff_time)"

definition stale_name :: "real \<Rightarrow> (string \<times> entry) list \<Rightarrow> string \<Rightarrow> bool" where
  "stale_name cutoff_time es n = (case map_of es n of None \<Rightarrow> False | Some e \<Rightarrow> stale cutoff_time e)"

subsection \<open>Level names as the specification describes them\<close>

text \<open>
  Two characters are the same letter when they are equal or one is the capital of the
  other. A value of \<open>LOG_LEVEL\<close> denotes a level name when it is the name, in any case,
  with whitespace before and after it.
\<close>

definition same_letter :: "char \<Rightarrow> char \<Rightarrow> bool" where
  "same_letter x y = (x = y \<or> (x, y) \<in> set letter_pairs \<or> (y, x) \<in> set letter_pairs)"

definition same_ignoring_case :: "string \<Rightarrow> string \<Rightarrow> bool" where
  "same_ignoring_case s t = list_all2 same_letter s t"

definition denotes :: "string \<Rightarrow> string \<Rightarrow> bool" where
  "denotes v name =
     (\<exists>pre core post. v = pre @ core @ post \<and> list_all isspace pre \<and> list_all isspace post \<and>
        same_ignoring_case core name)"

definition capitals :: "char set" where
  "capitals = set ''ABCDEFGHIJKLMNOPQRSTUVWXYZ''"

subsection \<open>The handlers and the file of a call\<close>

text \<open>
  The console handler and the file handler that a call of \<open>setup_logger\<close> builds, the
  path of the log file, and the three file system steps of lines 106 to 116 taken
  together.
\<close>

definition console_of :: "ambient \<Rightarrow> handler" where
  "console_of a = \<lparr>sink = StreamHandler, hlevel = log_level_of a, hformatter = Some the_formatter\<rparr>"

definition log_filepath_of :: "datetime \<Rightarrow> string \<Rightarrow> string" where
  "log_filepath_of dt c = os_path_join ''logs'' (c @ ''-'' @ strftime dt ''%Y%m%d'' @ ''.log'')"

definition file_sink_of :: "ambient \<Rightarrow> string \<Rightarrow> handler" where
  "file_sink_of a c = \<lparr>sink = FileHandler (log_filepath_of (datetime_now a) c) ''a'' ''utf-8'',
                        hlevel = log_level_of a, hformatter = Some the_formatter\<rparr>"

definition file_effects :: "real \<Rightarrow> datetime \<Rightarrow> world \<Rightarrow> string \<Rightarrow> (exn + unit) \<times> world" where
  "file_effects t dt w c =
     (case makedirs w ''logs'' of
        (Inl e, w4) \<Rightarrow> (Inl e, w4)
      | (Inr u, w4) \<Rightarrow>
          (case cleanup_old_logs t w4 ''logs'' (Some 7) of
             (Inl e, w5) \<Rightarrow> (Inl e, w5)
           | (Inr u, w5) \<Rightarrow> open_file t w5 (log_filepath_of dt c) ''a''))"

text \<open>The entry that \<open>open\<close> creates for a file that was not there.\<close>

definition fresh_file :: "real \<Rightarrow> entry" where
  "fresh_file now = \<lparr>st_mtime = Some now, unlink_ok = True, open_ok = True, content = []\<rparr>"

definition is_console :: "handler \<Rightarrow> bool" where
  "is_console h = (sink h = StreamHandler)"

definition is_file :: "handler \<Rightarrow> bool" where
  "is_file h = (case sink h of StreamHandler \<Rightarrow> False | FileHandler p m e \<Rightarrow> True)"

text \<open>Calls of \<open>setup_logger\<close> for one name, one after the other, whatever each returns.\<close>

fun setup_many :: "world \<Rightarrow> string option \<Rightarrow> (ambient \<times> string option) list \<Rightarrow> world" where
  "setup_many w name [] = w"
| "setup_many w name ((a, command_name) # calls) =
     setup_many (snd (setup_logger a w name command_name)) name calls"


text \<open>\<open>os.path.isdir\<close>.\<close>

definition is_dir :: "world \<Rightarrow> string \<Rightarrow> bool" where
  "is_dir w p = (case files w p of Some (Dir es) \<Rightarrow> True | _ \<Rightarrow> False)"

subsection \<open>The log line as the specification describes it\<close>

text \<open>
  The level code of a level name: the letters D, I, W, E, C for the five standard names,
  and the first character for any other name. The timestamp of a local time and a number
  of milliseconds.
\<close>

definition level_code :: "string \<Rightarrow> char" where
  "level_code n =
     (if n = ''DEBUG'' then CHR ''D''
      else if n = ''INFO'' then CHR ''I''
      else if n = ''WARNING'' then CHR ''W''
      else if n = ''ERROR'' then CHR ''E''
      else if n = ''CRITICAL'' then CHR ''C''
      else hd n)"

definition timestamp :: "datetime \<Rightarrow> real \<Rightarrow> string" where
  "timestamp ct ms =
     zfill 4 (digits (year ct)) @ ''-'' @ zfill 2 (digits (month ct)) @ ''-'' @ zfill 2 (digits (day ct)) @ '' '' @
     zfill 2 (digits (hour ct)) @ '':'' @ zfill 2 (digits (minute ct)) @ '':'' @ zfill 2 (digits (second ct)) @
     ''.'' @ format_03d (py_int ms)"

subsection \<open>Example inputs\<close>

text \<open>
  An empty world, the local time 2024-01-15 10:30:00, an environment whose \<open>LOG_LEVEL\<close>
  is the word warning in mixed case between a space and a line feed, and a \<open>logs\<close>
  directory with an old file that cannot be deleted, an old file that can, a file exactly
  at the cutoff of seven days before 1705314600, a recent file and an old file that is not a log.
\<close>

definition world0 :: world where
  "world0 = \<lparr>files = Map.empty, syscalls = [], loggers = Map.empty\<rparr>"

definition day0 :: datetime where
  "day0 = \<lparr>year = 2024, month = 1, day = 15, hour = 10, minute = 30, second = 0\<rparr>"

definition env0 :: ambient where
  "env0 = \<lparr>LOG_LEVEL = Some [CHR 0x20, CHR ''w'', CHR ''a'', CHR ''R'', CHR ''n'', CHR ''i'', CHR ''n'', CHR ''g'', CHR 0x0A],
            time_time = 1705314600, datetime_now = day0\<rparr>"

definition file_at :: "real \<Rightarrow> bool \<Rightarrow> entry" where
  "file_at m deletable = \<lparr>st_mtime = Some m, unlink_ok = deletable, open_ok = True, content = ''old lines''\<rparr>"

definition logs0 :: "(string \<times> entry) list" where
  "logs0 = [(''a.log'', file_at 0 False), (''b.log'', file_at 100 True),
            (''c.log'', file_at 1704709800 True), (''d.log'', file_at 1705000000 True),
            (''notes.txt'', file_at 0 True)]"

definition world1 :: world where
  "world1 = \<lparr>files = [''logs'' \<mapsto> Dir logs0], syscalls = [], loggers = Map.empty\<rparr>"


text \<open>
  A \<open>logs\<close> directory that already holds the log file of 2024-01-15 with a modification
  time of 1970, a world whose only directory is \<open>/tmp\<close>, and a record of level
  \<open>WARNING\<close> created at 10:30:00.5, with the 500 milliseconds that logging stores for it.
\<close>

definition world2 :: world where
  "world2 = \<lparr>files = [''logs'' \<mapsto> Dir [(''analyze-20240115.log'', file_at 0 True)]], syscalls = [], loggers = Map.empty\<rparr>"

definition world3 :: world where
  "world3 = \<lparr>files = [''/tmp'' \<mapsto> Dir []], syscalls = [], loggers = Map.empty\<rparr>"

definition record0 :: LogRecord where
  "record0 = \<lparr>levelname = ''WARNING'', created = 1705314600.5, msecs = 500,
              message = ''disk is full'', exc_text = [], stack_info = []\<rparr>"

text \<open>
  The record that logging makes for the instant 10:30:00.123 under Python 3.11. The float
  nearest to 1705314600.123 is \<open>1705314600 + 515899 / 2 ^ 22\<close>, and \<open>LogRecord\<close> sets
  \<open>msecs\<close> to the fraction of \<open>created\<close> times 1000, which is a little below 123.
\<close>

definition record1 :: LogRecord where
  "record1 = \<lparr>levelname = ''WARNING'', created = 1705314600 + 515899 / 4194304, msecs = 515899000 / 4194304,
              message = ''disk is full'', exc_text = [], stack_info = []\<rparr>"

text \<open>A world in which \<open>logs\<close> is a regular file.\<close>

definition world4 :: world where
  "world4 = \<lparr>files = [''logs'' \<mapsto> NotDir], syscalls = [], loggers = Map.empty\<rparr>"

section \<open>Auxiliary lemmas\<close>

subsection \<open>Floats of whole numbers\<close>

text \<open>A whole number below \<open>2 ^ 53\<close> in size is a float, so rounding leaves it as it is.\<close>

lemma round_half_even_of_int: "round_half_even (of_int m) = m"
  by (simp add: round_half_even_def)

lemma to_float_of_int:
  assumes "\<bar>n\<bar> < 2 ^ 53"
  shows "to_float (of_int n) = of_int n"
proof (cases "n = 0")
  case True
  then show ?thesis by (simp add: to_float_def)
next
  case False
  define x :: real where "x = of_int n"
  define e where "e = \<lfloor>log 2 \<bar>x\<bar>\<rfloor>"
  have x1: "1 \<le> \<bar>x\<bar>" using False by (simp add: x_def)
  have x2: "\<bar>x\<bar> < 2 ^ 53"
  proof -
    have "real_of_int \<bar>n\<bar> < real_of_int (2 ^ 53)" using assms by (simp only: of_int_less_iff)
    then show ?thesis by (simp add: x_def)
  qed
  have e0: "0 \<le> e" using x1 by (simp add: e_def)
  have "\<bar>x\<bar> < 2 powr 53" using x2 by (simp add: powr_numeral)
  then have "log 2 \<bar>x\<bar> < 53" using x1 by (subst log_less_iff) simp_all
  then have e52: "e \<le> 52" by (simp add: e_def floor_le_iff)
  define k where "k = nat (52 - e)"
  have ek: "of_int e - 52 = - real k" using e52 by (simp add: k_def)
  have q: "2 powr (of_int e - (52::real)) = 1 / 2 ^ k"
    unfolding ek by (simp add: powr_minus powr_realpow divide_inverse)
  have m: "max e (- 1022) = e" using e0 by simp
  have d: "x / (1 / 2 ^ k) = of_int (n * 2 ^ k)" by (simp add: x_def)
  have x0: "x \<noteq> 0" using x1 by auto
  have "to_float x = (1 / 2 ^ k) * of_int (round_half_even (x / (1 / 2 ^ k)))"
    using x0 by (simp add: to_float_def e_def [symmetric] m q Let_def)
  also have "\<dots> = (1 / 2 ^ k) * of_int (n * 2 ^ k)" unfolding d round_half_even_of_int ..
  also have "\<dots> = x" by (simp add: x_def)
  finally show ?thesis by (simp add: x_def)
qed

lemma cutoff_whole:
  assumes "\<bar>(case days_arg of None \<Rightarrow> 7 | Some d \<Rightarrow> d) * 24 * 60 * 60\<bar> < 2 ^ 53"
    and "\<bar>t - (case days_arg of None \<Rightarrow> 7 | Some d \<Rightarrow> d) * 24 * 60 * 60\<bar> < 2 ^ 53"
  shows "cutoff (of_int t) days_arg = of_int (t - (case days_arg of None \<Rightarrow> 7 | Some d \<Rightarrow> d) * 24 * 60 * 60)"
proof -
  let ?n = "(case days_arg of None \<Rightarrow> 7 | Some d \<Rightarrow> d) * 24 * 60 * 60"
  have "cutoff (of_int t) days_arg = to_float (of_int t - to_float (of_int ?n))" by (simp add: cutoff_def)
  also have "\<dots> = to_float (of_int (t - ?n))" by (simp only: to_float_of_int [OF assms(1)] of_int_diff)
  also have "\<dots> = of_int (t - ?n)" by (rule to_float_of_int [OF assms(2)])
  finally show ?thesis .
qed

lemma cutoff_example:
  "cutoff 1705314600 None = 1704709800" "cutoff 1705314600 (Some 7) = 1704709800"
  using cutoff_whole [of None 1705314600] cutoff_whole [of "Some 7" 1705314600] by simp_all

lemma seven_days_fit: "\<not> overflows None" "\<not> overflows (Some 7)"
  by (simp_all add: overflows_def)

lemma cleanup_old_logs_cases:
  "cleanup_old_logs t w p d =
     (if \<not> path_exists w p then (Inr (), w)
      else if overflows d then (Inl OverflowError, w)
      else cleanup_loop w p (cutoff t d) (glob_log w p))"
  by (simp add: cleanup_old_logs_def float_of_int_def overflows_def cutoff_def Let_def)

subsection \<open>The loop of cleanup_old_logs\<close>

lemma map_of_filter_other:
  "k \<noteq> n \<Longrightarrow> map_of (filter (\<lambda>(k', _). k' \<noteq> n) es) k = map_of es k"
  by (induction es) auto

lemma distinct_filter_keys:
  "distinct (map fst es) \<Longrightarrow> distinct (map fst (filter P es))"
  by (induction es) auto

lemma cleanup_loop_result:
  assumes "files w p = Some (Dir es)"
    and "distinct (map fst es)"
    and "distinct ns"
    and "set ns \<subseteq> fst ` set es"
    and "\<forall>n\<in>set ns. \<forall>e. map_of es n = Some e \<longrightarrow> st_mtime e \<noteq> None"
  shows "cleanup_loop w p c ns =
    (Inr (), w\<lparr>files := (files w)(p \<mapsto> Dir (filter (\<lambda>(k, e). \<not> (k \<in> set ns \<and> stale c e \<and> unlink_ok e)) es)),
               syscalls := syscalls w @ map (Unlink p) (filter (stale_name c es) ns)\<rparr>)"
  using assms
proof (induction ns arbitrary: w es)
  case Nil
  then show ?case by (simp add: fun_upd_idem)
next
  case (Cons n ns)
  from Cons.prems obtain e where e: "map_of es n = Some e"
    by (fastforce simp: map_of_eq_None_iff [symmetric] simp del: map_of_eq_None_iff)
  with Cons.prems obtain m where m: "st_mtime e = Some m" by auto
  have ld: "listdir w p = es" using Cons.prems(1) by (simp add: listdir_def)
  have st: "stat_mtime w p n = Inr m" by (simp add: stat_mtime_def ld e m)
  have uniq: "\<And>k e'. (k, e') \<in> set es \<Longrightarrow> k = n \<Longrightarrow> e' = e"
    using Cons.prems(2) e by (metis map_of_is_SomeI option.inject)
  have nn: "n \<notin> set ns" and dn: "distinct ns" using Cons.prems(3) by auto
  show ?case
  proof (cases "m < c")
    case False
    have sn: "\<not> stale_name c es n" using False by (simp add: stale_name_def e stale_def m)
    have IH: "cleanup_loop w p c ns =
      (Inr (), w\<lparr>files := (files w)(p \<mapsto> Dir (filter (\<lambda>(k, e). \<not> (k \<in> set ns \<and> stale c e \<and> unlink_ok e)) es)),
               syscalls := syscalls w @ map (Unlink p) (filter (stale_name c es) ns)\<rparr>)"
      using Cons.prems dn by (intro Cons.IH) auto
    have feq: "filter (\<lambda>(k, e). \<not> (k \<in> set ns \<and> stale c e \<and> unlink_ok e)) es
             = filter (\<lambda>(k, e). \<not> (k \<in> set (n # ns) \<and> stale c e \<and> unlink_ok e)) es"
      using uniq False m by (intro filter_cong) (auto simp: stale_def)
    have step: "cleanup_loop w p c (n # ns) = cleanup_loop w p c ns"
      using False st by simp
    have tr: "filter (stale_name c es) (n # ns) = filter (stale_name c es) ns"
      using sn by simp
    have "cleanup_loop w p c (n # ns) =
      (Inr (), w\<lparr>files := (files w)(p \<mapsto> Dir (filter (\<lambda>(k, e). \<not> (k \<in> set ns \<and> stale c e \<and> unlink_ok e)) es)),
               syscalls := syscalls w @ map (Unlink p) (filter (stale_name c es) ns)\<rparr>)"
      unfolding step by (rule IH)
    then show ?thesis by (simp only: feq tr)
  next
    case True
    have sn: "stale_name c es n" using True by (simp add: stale_name_def e stale_def m)
    show ?thesis
    proof (cases "unlink_ok e")
      case False
      let ?w' = "w\<lparr>syscalls := syscalls w @ [Unlink p n]\<rparr>"
      have un: "unlink w p n = (Inl OSError, ?w')" using False by (simp add: unlink_def ld e)
      have IH: "cleanup_loop ?w' p c ns =
        (Inr (), ?w'\<lparr>files := (files ?w')(p \<mapsto> Dir (filter (\<lambda>(k, e). \<not> (k \<in> set ns \<and> stale c e \<and> unlink_ok e)) es)),
               syscalls := syscalls ?w' @ map (Unlink p) (filter (stale_name c es) ns)\<rparr>)"
        using Cons.prems dn by (intro Cons.IH) auto
      have feq: "filter (\<lambda>(k, e). \<not> (k \<in> set ns \<and> stale c e \<and> unlink_ok e)) es
             = filter (\<lambda>(k, e). \<not> (k \<in> set (n # ns) \<and> stale c e \<and> unlink_ok e)) es"
        using uniq False by (intro filter_cong) auto
      have step: "cleanup_loop w p c (n # ns) = cleanup_loop ?w' p c ns"
        using True st un by simp
      have tr: "filter (stale_name c es) (n # ns) = n # filter (stale_name c es) ns"
        using sn by simp
      have "cleanup_loop w p c (n # ns) =
        (Inr (), w\<lparr>files := (files w)(p \<mapsto> Dir (filter (\<lambda>(k, e). \<not> (k \<in> set ns \<and> stale c e \<and> unlink_ok e)) es)),
               syscalls := syscalls w @ Unlink p n # map (Unlink p) (filter (stale_name c es) ns)\<rparr>)"
        unfolding step IH by simp
      then show ?thesis by (simp only: feq tr list.map)
    next
      case ok: True
      let ?es' = "filter (\<lambda>(k, _). k \<noteq> n) es"
      let ?w' = "w\<lparr>syscalls := syscalls w @ [Unlink p n], files := (files w)(p \<mapsto> Dir ?es')\<rparr>"
      have un: "unlink w p n = (Inr (), ?w')" using ok by (simp add: unlink_def ld e)
      have sub: "set ns \<subseteq> fst ` set ?es'" using Cons.prems(4) nn by force
      have statable: "\<forall>n'\<in>set ns. \<forall>e. map_of ?es' n' = Some e \<longrightarrow> st_mtime e \<noteq> None"
      proof (intro ballI allI impI)
        fix n' e'
        assume a: "n' \<in> set ns" "map_of ?es' n' = Some e'"
        then have "n' \<noteq> n" using nn by auto
        then have "map_of es n' = Some e'" using a(2) by (simp add: map_of_filter_other)
        then show "st_mtime e' \<noteq> None" using Cons.prems(5) a(1) by auto
      qed
      have IH: "cleanup_loop ?w' p c ns =
        (Inr (), ?w'\<lparr>files := (files ?w')(p \<mapsto> Dir (filter (\<lambda>(k, e). \<not> (k \<in> set ns \<and> stale c e \<and> unlink_ok e)) ?es')),
               syscalls := syscalls ?w' @ map (Unlink p) (filter (stale_name c ?es') ns)\<rparr>)"
        using distinct_filter_keys [OF Cons.prems(2)] dn sub statable by (intro Cons.IH) auto
      have feq: "filter (\<lambda>(k, e). \<not> (k \<in> set ns \<and> stale c e \<and> unlink_ok e)) ?es'
             = filter (\<lambda>(k, e). \<not> (k \<in> set (n # ns) \<and> stale c e \<and> unlink_ok e)) es"
        unfolding filter_filter using uniq ok True m by (intro filter_cong) (auto simp: stale_def)
      have seq: "filter (stale_name c ?es') ns = filter (stale_name c es) ns"
      proof (intro filter_cong refl)
        fix n' assume "n' \<in> set ns"
        then have "n' \<noteq> n" using nn by auto
        then show "stale_name c ?es' n' = stale_name c es n'"
          by (simp add: stale_name_def map_of_filter_other)
      qed
      have step: "cleanup_loop w p c (n # ns) = cleanup_loop ?w' p c ns"
        using True st un by simp
      have tr: "filter (stale_name c es) (n # ns) = n # filter (stale_name c es) ns"
        using sn by simp
      have "cleanup_loop w p c (n # ns) =
        (Inr (), w\<lparr>files := (files w)(p \<mapsto> Dir (filter (\<lambda>(k, e). \<not> (k \<in> set ns \<and> stale c e \<and> unlink_ok e)) ?es')),
               syscalls := syscalls w @ Unlink p n # map (Unlink p) (filter (stale_name c ?es') ns)\<rparr>)"
        unfolding step IH by simp
      then show ?thesis by (simp only: feq seq tr list.map)
    qed
  qed
qed

lemma cleanup_old_logs_result:
  assumes dir: "files w log_dir = Some (Dir es)"
    and dist: "distinct (map fst es)"
    and statable: "\<forall>(n, e)\<in>set es. endswith n ''.log'' \<longrightarrow> st_mtime e \<noteq> None"
    and fits: "\<not> overflows days_arg"
  shows "cleanup_old_logs now w log_dir days_arg =
    (Inr (), w\<lparr>files := (files w)(log_dir \<mapsto>
                 Dir (filter (\<lambda>(k, e). \<not> (endswith k ''.log'' \<and> stale (cutoff now days_arg) e \<and> unlink_ok e)) es)),
               syscalls := syscalls w @
                 map (Unlink log_dir)
                   (filter (\<lambda>n. endswith n ''.log'' \<and> stale_name (cutoff now days_arg) es n) (map fst es))\<rparr>)"
proof -
  let ?c = "cutoff now days_arg"
  let ?ns = "glob_log w log_dir"
  have ns: "?ns = filter (\<lambda>n. endswith n ''.log'') (map fst es)"
    using dir by (simp add: glob_log_def listdir_def)
  have d: "distinct ?ns" unfolding ns using dist by simp
  have sub: "set ?ns \<subseteq> fst ` set es" unfolding ns by auto
  have st: "\<forall>n\<in>set ?ns. \<forall>e. map_of es n = Some e \<longrightarrow> st_mtime e \<noteq> None"
  proof (intro ballI allI impI)
    fix n e assume "n \<in> set ?ns" "map_of es n = Some e"
    then have "(n, e) \<in> set es" "endswith n ''.log''"
      unfolding ns by (auto dest: map_of_SomeD)
    then show "st_mtime e \<noteq> None" using statable by auto
  qed
  have loop: "cleanup_loop w log_dir ?c ?ns =
    (Inr (), w\<lparr>files := (files w)(log_dir \<mapsto> Dir (filter (\<lambda>(k, e). \<not> (k \<in> set ?ns \<and> stale ?c e \<and> unlink_ok e)) es)),
               syscalls := syscalls w @ map (Unlink log_dir) (filter (stale_name ?c es) ?ns)\<rparr>)"
    by (rule cleanup_loop_result [OF dir dist d sub st])
  have feq: "filter (\<lambda>(k, e). \<not> (k \<in> set ?ns \<and> stale ?c e \<and> unlink_ok e)) es
           = filter (\<lambda>(k, e). \<not> (endswith k ''.log'' \<and> stale ?c e \<and> unlink_ok e)) es"
    unfolding ns by (intro filter_cong refl) force
  have seq: "filter (stale_name ?c es) ?ns
           = filter (\<lambda>n. endswith n ''.log'' \<and> stale_name ?c es n) (map fst es)"
    unfolding ns by (simp add: conj_commute)
  have ex: "path_exists w log_dir" using dir by (simp add: path_exists_def)
  have "cleanup_old_logs now w log_dir days_arg = cleanup_loop w log_dir ?c ?ns"
    using ex fits by (simp add: cleanup_old_logs_cases)
  then show ?thesis by (simp only: loop feq seq)
qed

subsection \<open>The file system calls leave the registry alone\<close>

lemma makedirs_loggers:
  "makedirs (w\<lparr>loggers := L\<rparr>) p = (fst (makedirs w p), (snd (makedirs w p))\<lparr>loggers := L\<rparr>)"
  by (simp add: makedirs_def Let_def split: option.splits node.splits)

lemma unlink_loggers:
  "unlink (w\<lparr>loggers := L\<rparr>) p n = (fst (unlink w p n), (snd (unlink w p n))\<lparr>loggers := L\<rparr>)"
  by (simp add: unlink_def listdir_def Let_def split: option.splits node.splits)

lemma stat_mtime_loggers: "stat_mtime (w\<lparr>loggers := L\<rparr>) p n = stat_mtime w p n"
  by (simp add: stat_mtime_def listdir_def)

lemma cleanup_loop_loggers:
  "cleanup_loop (w\<lparr>loggers := L\<rparr>) p c ns
     = (fst (cleanup_loop w p c ns), (snd (cleanup_loop w p c ns))\<lparr>loggers := L\<rparr>)"
proof (induction ns arbitrary: w)
  case Nil
  show ?case by simp
next
  case (Cons n ns)
  show ?case
  proof (cases "stat_mtime w p n")
    case (Inl e)
    then show ?thesis by (simp add: stat_mtime_loggers)
  next
    case (Inr m)
    show ?thesis
    proof (cases "m < c")
      case False
      then show ?thesis using Inr Cons.IH [of w] by (simp add: stat_mtime_loggers)
    next
      case True
      obtain r w' where u: "unlink w p n = (r, w')" by (cases "unlink w p n")
      have u': "unlink (w\<lparr>loggers := L\<rparr>) p n = (r, w'\<lparr>loggers := L\<rparr>)"
        by (simp add: unlink_loggers u)
      show ?thesis using True Inr u u' Cons.IH [of w']
        by (cases r) (simp_all add: stat_mtime_loggers)
    qed
  qed
qed

lemma cleanup_old_logs_loggers:
  "cleanup_old_logs t (w\<lparr>loggers := L\<rparr>) p d
     = (fst (cleanup_old_logs t w p d), (snd (cleanup_old_logs t w p d))\<lparr>loggers := L\<rparr>)"
  by (simp add: cleanup_old_logs_cases path_exists_def glob_log_def listdir_def cleanup_loop_loggers)

lemma open_file_loggers:
  "open_file t (w\<lparr>loggers := L\<rparr>) p m = (fst (open_file t w p m), (snd (open_file t w p m))\<lparr>loggers := L\<rparr>)"
  by (simp add: open_file_def Let_def split: option.splits node.splits prod.splits)

lemma makedirs_keeps_loggers: "loggers (snd (makedirs w p)) = loggers w"
  by (simp add: makedirs_def Let_def split: option.splits node.splits)

lemma unlink_keeps_loggers: "loggers (snd (unlink w p n)) = loggers w"
  by (simp add: unlink_def Let_def split: option.splits)

lemma cleanup_loop_keeps_loggers: "loggers (snd (cleanup_loop w p c ns)) = loggers w"
proof (induction ns arbitrary: w)
  case Nil
  show ?case by simp
next
  case (Cons n ns)
  show ?case
  proof (cases "stat_mtime w p n")
    case (Inl e)
    then show ?thesis by simp
  next
    case (Inr m)
    obtain r w' where u: "unlink w p n = (r, w')" by (cases "unlink w p n")
    have "loggers w' = loggers w" using unlink_keeps_loggers [of w p n] u by simp
    then show ?thesis using Inr u Cons.IH [of w'] Cons.IH [of w]
      by (cases r; cases "m < c") simp_all
  qed
qed

lemma cleanup_old_logs_keeps_loggers: "loggers (snd (cleanup_old_logs t w p d)) = loggers w"
  by (simp add: cleanup_old_logs_cases cleanup_loop_keeps_loggers)

lemma open_file_keeps_loggers: "loggers (snd (open_file t w p m)) = loggers w"
  by (simp add: open_file_def Let_def split: option.splits node.splits prod.splits)

subsection \<open>setup_logger, step by step\<close>

lemma setup_logger_no_command:
  assumes "command_name = None \<or> command_name = Some []"
  shows "setup_logger a w name command_name =
    (Inr (logger_key name),
     w\<lparr>loggers := (loggers w)(logger_key name \<mapsto>
          (getLogger w name)\<lparr>lvl := log_level_of a, handlers := [console_of a], propagate := False\<rparr>)\<rparr>)"
  using assms
  by (auto simp add: setup_logger_def Let_def console_of_def)

lemma setup_logger_command:
  assumes "c \<noteq> []"
  shows "setup_logger a w name (Some c) =
    (case file_effects (time_time a) (datetime_now a) w c of
       (Inl e, w') \<Rightarrow>
         (Inl e, w'\<lparr>loggers := (loggers w)(logger_key name \<mapsto>
            (getLogger w name)\<lparr>lvl := log_level_of a, handlers := [console_of a]\<rparr>)\<rparr>)
     | (Inr u, w') \<Rightarrow>
         (Inr (logger_key name), w'\<lparr>loggers := (loggers w)(logger_key name \<mapsto>
            (getLogger w name)\<lparr>lvl := log_level_of a, handlers := [console_of a, file_sink_of a c],
                                 propagate := False\<rparr>)\<rparr>))"
proof -
  let ?L = "(loggers w)(logger_key name \<mapsto> (getLogger w name)\<lparr>lvl := log_level_of a, handlers := [console_of a]\<rparr>)"
  obtain r1 w1 where m: "makedirs w ''logs'' = (r1, w1)" by (cases "makedirs w ''logs''")
  obtain r2 w2 where cl: "cleanup_old_logs (time_time a) w1 ''logs'' (Some 7) = (r2, w2)"
    by (cases "cleanup_old_logs (time_time a) w1 ''logs'' (Some 7)")
  obtain r3 w3 where op: "open_file (time_time a) w2 (log_filepath_of (datetime_now a) c) ''a'' = (r3, w3)"
    by (cases "open_file (time_time a) w2 (log_filepath_of (datetime_now a) c) ''a''")
  show ?thesis
    using assms
    unfolding setup_logger_def file_effects_def Let_def console_of_def file_sink_of_def log_filepath_of_def [symmetric]
    by (cases r1; cases r2; cases r3)
       (simp_all add: makedirs_loggers cleanup_old_logs_loggers open_file_loggers m cl op)
qed

subsection \<open>Case and whitespace\<close>

lemma letter_pairs_distinct: "distinct (map fst letter_pairs)"
  by (simp add: letter_pairs_def)

lemma letter_pairs_snd: "snd ` set letter_pairs = capitals"
  by (simp add: letter_pairs_def capitals_def)

lemma letter_pairs_fst_not_capital: "(x, u) \<in> set letter_pairs \<Longrightarrow> x \<notin> capitals"
  by (auto simp add: letter_pairs_def capitals_def)

lemma capital_not_space: "y \<in> capitals \<Longrightarrow> \<not> isspace y"
  by (auto simp add: capitals_def isspace_def)

lemma small_not_space: "(x, u) \<in> set letter_pairs \<Longrightarrow> \<not> isspace x"
  by (auto simp add: letter_pairs_def isspace_def)

lemma upper_char_same_letter:
  assumes y: "y \<in> capitals"
  shows "same_letter x y \<longleftrightarrow> upper_char x = y"
proof -
  have no_rev: "(y, x) \<notin> set letter_pairs" using y letter_pairs_fst_not_capital by blast
  show ?thesis
  proof (cases "map_of letter_pairs x")
    case None
    then have "(x, y) \<notin> set letter_pairs"
      using letter_pairs_distinct by (metis map_of_is_SomeI option.distinct(1))
    then show ?thesis using None no_rev by (simp add: same_letter_def upper_char_def)
  next
    case (Some u)
    then have xu: "(x, u) \<in> set letter_pairs" by (rule map_of_SomeD)
    then have "x \<noteq> y" using y letter_pairs_fst_not_capital by blast
    moreover have "(x, y) \<in> set letter_pairs \<longleftrightarrow> u = y"
      using Some xu letter_pairs_distinct by (metis map_of_is_SomeI option.inject)
    ultimately show ?thesis using Some no_rev by (simp add: same_letter_def upper_char_def)
  qed
qed

lemma same_ignoring_case_upper:
  "set t \<subseteq> capitals \<Longrightarrow> same_ignoring_case s t \<longleftrightarrow> upper s = t"
proof (induction t arbitrary: s)
  case Nil
  show ?case by (simp add: same_ignoring_case_def upper_def)
next
  case (Cons y t)
  then have IH: "\<And>s. list_all2 same_letter s t \<longleftrightarrow> map upper_char s = t"
    by (simp add: same_ignoring_case_def upper_def)
  have y: "y \<in> capitals" using Cons.prems by simp
  show ?case
    by (cases s) (simp_all add: same_ignoring_case_def upper_def IH upper_char_same_letter [OF y])
qed

lemma same_letter_not_space:
  assumes "same_letter x y" and "y \<in> capitals"
  shows "\<not> isspace x"
  using assms capital_not_space small_not_space letter_pairs_fst_not_capital
  unfolding same_letter_def by blast

lemma strip_core:
  assumes pre: "list_all isspace pre" and post: "list_all isspace post"
    and ne: "core \<noteq> []" and h: "\<not> isspace (hd core)" and l: "\<not> isspace (last core)"
  shows "strip (pre @ core @ post) = core"
proof -
  obtain x xs where c: "core = x # xs" using ne by (cases core) auto
  have 1: "dropWhile isspace (pre @ core @ post) = core @ post"
    using pre h c by (simp add: dropWhile_append3 list_all_iff)
  obtain ys z where r: "rev core = z # ys" using ne by (cases "rev core") auto
  have z: "\<not> isspace z" using l r ne by (metis last_rev list.sel(1) rev_is_Nil_conv rev_rev_ident)
  have "dropWhile isspace (rev post @ rev core) = rev core"
    using post z r by (simp add: dropWhile_append3 list_all_iff)
  then show ?thesis by (simp add: strip_def 1)
qed

lemma strip_decompose:
  "\<exists>pre post. v = pre @ strip v @ post \<and> list_all isspace pre \<and> list_all isspace post"
proof -
  let ?u = "dropWhile isspace v"
  have a: "v = takeWhile isspace v @ ?u" by simp
  have "rev ?u = takeWhile isspace (rev ?u) @ dropWhile isspace (rev ?u)" by simp
  then have "?u = rev (dropWhile isspace (rev ?u)) @ rev (takeWhile isspace (rev ?u))"
    by (metis rev_append rev_rev_ident)
  then have b: "?u = strip v @ rev (takeWhile isspace (rev ?u))" by (simp add: strip_def)
  have "v = takeWhile isspace v @ strip v @ rev (takeWhile isspace (rev ?u))"
    using a b by metis
  moreover have "list_all isspace (takeWhile isspace v)"
    by (simp add: list_all_iff) (meson set_takeWhileD)
  moreover have "list_all isspace (rev (takeWhile isspace (rev ?u)))"
    by (simp add: list_all_iff) (meson set_takeWhileD)
  ultimately show ?thesis by blast
qed

lemma denotes_iff:
  assumes t: "set t \<subseteq> capitals" and ne: "t \<noteq> []"
  shows "denotes v t \<longleftrightarrow> upper (strip v) = t"
proof
  assume "denotes v t"
  then obtain pre core post where v: "v = pre @ core @ post"
    and pre: "list_all isspace pre" and post: "list_all isspace post"
    and m: "same_ignoring_case core t"
    unfolding denotes_def by blast
  have la: "list_all2 same_letter core t" using m by (simp add: same_ignoring_case_def)
  then have len: "length core = length t" by (rule list_all2_lengthD)
  then have cne: "core \<noteq> []" using ne by auto
  have all: "\<forall>x\<in>set core. \<not> isspace x"
  proof
    fix x assume "x \<in> set core"
    then obtain i where i: "i < length core" "core ! i = x" by (auto simp: in_set_conv_nth)
    then have "same_letter x (t ! i)" using la by (auto simp: list_all2_conv_all_nth)
    moreover have "t ! i \<in> capitals" using t i len by (metis nth_mem subsetD)
    ultimately show "\<not> isspace x" by (rule same_letter_not_space)
  qed
  have "strip v = core"
    unfolding v using pre post cne all by (intro strip_core) simp_all
  then show "upper (strip v) = t" using m same_ignoring_case_upper [OF t] by simp
next
  assume u: "upper (strip v) = t"
  then have "same_ignoring_case (strip v) t" using same_ignoring_case_upper [OF t] by simp
  then show "denotes v t" using strip_decompose [of v] unfolding denotes_def by blast
qed

lemma log_level_of_denotes:
  "log_level_of a =
     (case LOG_LEVEL a of
        None \<Rightarrow> INFO
      | Some v \<Rightarrow>
          if denotes v ''DEBUG'' then DEBUG
          else if denotes v ''INFO'' then INFO
          else if denotes v ''WARNING'' then WARNING
          else if denotes v ''ERROR'' then ERROR
          else if denotes v ''CRITICAL'' then CRITICAL
          else INFO)"
proof (cases "LOG_LEVEL a")
  case None
  then show ?thesis
    by (simp add: log_level_of_def log_levels_def upper_def strip_def isspace_def upper_char_def letter_pairs_def)
next
  case (Some v)
  have d: "denotes v ''DEBUG'' \<longleftrightarrow> upper (strip v) = ''DEBUG''"
    "denotes v ''INFO'' \<longleftrightarrow> upper (strip v) = ''INFO''"
    "denotes v ''WARNING'' \<longleftrightarrow> upper (strip v) = ''WARNING''"
    "denotes v ''ERROR'' \<longleftrightarrow> upper (strip v) = ''ERROR''"
    "denotes v ''CRITICAL'' \<longleftrightarrow> upper (strip v) = ''CRITICAL''"
    by (rule denotes_iff; simp add: capitals_def)+
  show ?thesis by (simp add: log_level_of_def log_levels_def Some d Let_def)
qed


subsection \<open>What a call of setup_logger leaves behind\<close>

lemma getLogger_updated:
  "getLogger (w\<lparr>loggers := (L)(logger_key name \<mapsto> l)\<rparr>) name = l"
  by (simp add: getLogger_def)

lemma setup_logger_final_logger:
  "getLogger (snd (setup_logger a w name command_name)) name =
     (case command_name of
        None \<Rightarrow> (getLogger w name)\<lparr>lvl := log_level_of a, handlers := [console_of a], propagate := False\<rparr>
      | Some c \<Rightarrow>
          if c = [] then (getLogger w name)\<lparr>lvl := log_level_of a, handlers := [console_of a], propagate := False\<rparr>
          else (case fst (file_effects (time_time a) (datetime_now a) w c) of
                  Inl e \<Rightarrow> (getLogger w name)\<lparr>lvl := log_level_of a, handlers := [console_of a]\<rparr>
                | Inr u \<Rightarrow> (getLogger w name)\<lparr>lvl := log_level_of a,
                              handlers := [console_of a, file_sink_of a c], propagate := False\<rparr>))"
proof (cases command_name)
  case None
  then show ?thesis by (simp add: setup_logger_no_command getLogger_updated)
next
  case (Some c)
  show ?thesis
  proof (cases "c = []")
    case True
    then show ?thesis using Some by (simp add: setup_logger_no_command getLogger_updated)
  next
    case False
    obtain r w' where fe: "file_effects (time_time a) (datetime_now a) w c = (r, w')"
      by (cases "file_effects (time_time a) (datetime_now a) w c")
    show ?thesis using False Some fe
      by (cases r) (simp_all add: setup_logger_command getLogger_updated)
  qed
qed

lemma setup_logger_result:
  "fst (setup_logger a w name command_name) =
     (case command_name of
        None \<Rightarrow> Inr (logger_key name)
      | Some c \<Rightarrow>
          if c = [] then Inr (logger_key name)
          else (case fst (file_effects (time_time a) (datetime_now a) w c) of
                  Inl e \<Rightarrow> Inl e
                | Inr u \<Rightarrow> Inr (logger_key name)))"
proof (cases command_name)
  case None
  then show ?thesis by (simp add: setup_logger_no_command)
next
  case (Some c)
  show ?thesis
  proof (cases "c = []")
    case True
    then show ?thesis using Some by (simp add: setup_logger_no_command)
  next
    case False
    obtain r w' where fe: "file_effects (time_time a) (datetime_now a) w c = (r, w')"
      by (cases "file_effects (time_time a) (datetime_now a) w c")
    show ?thesis using False Some fe
      by (cases r) (simp_all add: setup_logger_command)
  qed
qed

lemma setup_logger_world:
  "files (snd (setup_logger a w name command_name)) =
     (case command_name of None \<Rightarrow> files w
      | Some c \<Rightarrow> if c = [] then files w else files (snd (file_effects (time_time a) (datetime_now a) w c)))"
  "syscalls (snd (setup_logger a w name command_name)) =
     (case command_name of None \<Rightarrow> syscalls w
      | Some c \<Rightarrow> if c = [] then syscalls w else syscalls (snd (file_effects (time_time a) (datetime_now a) w c)))"
proof -
  have "files (snd (setup_logger a w name command_name)) =
     (case command_name of None \<Rightarrow> files w
      | Some c \<Rightarrow> if c = [] then files w else files (snd (file_effects (time_time a) (datetime_now a) w c))) \<and>
    syscalls (snd (setup_logger a w name command_name)) =
     (case command_name of None \<Rightarrow> syscalls w
      | Some c \<Rightarrow> if c = [] then syscalls w else syscalls (snd (file_effects (time_time a) (datetime_now a) w c)))"
  proof (cases command_name)
    case None
    then show ?thesis by (simp add: setup_logger_no_command)
  next
    case (Some c)
    show ?thesis
    proof (cases "c = []")
      case True
      then show ?thesis using Some by (simp add: setup_logger_no_command)
    next
      case False
      obtain r w' where fe: "file_effects (time_time a) (datetime_now a) w c = (r, w')"
        by (cases "file_effects (time_time a) (datetime_now a) w c")
      show ?thesis using False Some fe
        by (cases r) (simp_all add: setup_logger_command)
    qed
  qed
  then show "files (snd (setup_logger a w name command_name)) =
     (case command_name of None \<Rightarrow> files w
      | Some c \<Rightarrow> if c = [] then files w else files (snd (file_effects (time_time a) (datetime_now a) w c)))"
    "syscalls (snd (setup_logger a w name command_name)) =
     (case command_name of None \<Rightarrow> syscalls w
      | Some c \<Rightarrow> if c = [] then syscalls w else syscalls (snd (file_effects (time_time a) (datetime_now a) w c)))"
    by simp_all
qed

subsection \<open>The file system steps of setup_logger\<close>

lemma is_dir_iff: "is_dir w p \<longleftrightarrow> (\<exists>es. files w p = Some (Dir es))"
  by (auto simp add: is_dir_def split: option.splits node.splits)

lemma unlink_is_dir: "is_dir w q \<Longrightarrow> is_dir (snd (unlink w p n)) q"
  by (auto simp add: unlink_def Let_def is_dir_def split: option.splits)

lemma cleanup_loop_is_dir: "is_dir w q \<Longrightarrow> is_dir (snd (cleanup_loop w p c ns)) q"
proof (induction ns arbitrary: w)
  case Nil
  then show ?case by simp
next
  case (Cons n ns)
  show ?case
  proof (cases "stat_mtime w p n")
    case (Inl e)
    then show ?thesis using Cons.prems by simp
  next
    case (Inr m)
    obtain r w' where u: "unlink w p n = (r, w')" by (cases "unlink w p n")
    have "is_dir w' q" using unlink_is_dir [OF Cons.prems, of p n] u by simp
    then show ?thesis using Inr u Cons.IH [of w'] Cons.IH [of w] Cons.prems
      by (cases r; cases "m < c") simp_all
  qed
qed

lemma cleanup_old_logs_is_dir: "is_dir w q \<Longrightarrow> is_dir (snd (cleanup_old_logs t w p d)) q"
  by (simp add: cleanup_old_logs_cases cleanup_loop_is_dir)

lemma open_file_is_dir: "is_dir w q \<Longrightarrow> is_dir (snd (open_file t w p m)) q"
  by (auto simp add: open_file_def Let_def is_dir_def split: option.splits node.splits prod.splits)

lemma makedirs_is_dir: "fst (makedirs w p) = Inr u \<Longrightarrow> is_dir (snd (makedirs w p)) p"
  by (auto simp add: makedirs_def Let_def is_dir_def split: option.splits node.splits)

lemma makedirs_syscalls: "syscalls (snd (makedirs w p)) = syscalls w @ [Makedirs p]"
  by (simp add: makedirs_def Let_def split: option.splits node.splits)

lemma open_file_syscalls: "syscalls (snd (open_file t w p m)) = syscalls w @ [Open p m]"
  by (simp add: open_file_def Let_def split: option.splits node.splits prod.splits)

lemma unlink_syscalls: "syscalls (snd (unlink w p n)) = syscalls w @ [Unlink p n]"
  by (simp add: unlink_def Let_def split: option.splits)

lemma cleanup_loop_syscalls:
  "\<exists>us. syscalls (snd (cleanup_loop w p c ns)) = syscalls w @ map (Unlink p) us"
proof (induction ns arbitrary: w)
  case Nil
  show ?case by simp
next
  case (Cons n ns)
  show ?case
  proof (cases "stat_mtime w p n")
    case (Inl e)
    then show ?thesis by simp
  next
    case (Inr m)
    show ?thesis
    proof (cases "m < c")
      case False
      then show ?thesis using Inr Cons.IH [of w] by simp
    next
      case True
      obtain r w' where u: "unlink w p n = (r, w')" by (cases "unlink w p n")
      have s: "syscalls w' = syscalls w @ [Unlink p n]" using unlink_syscalls [of w p n] u by simp
      obtain us where "syscalls (snd (cleanup_loop w' p c ns)) = syscalls w' @ map (Unlink p) us"
        using Cons.IH [of w'] by blast
      then have "syscalls (snd (cleanup_loop w' p c ns)) = syscalls w @ map (Unlink p) (n # us)"
        using s by simp
      moreover have "cleanup_loop w p c (n # ns) = cleanup_loop w' p c ns"
        using True Inr u by (cases r) simp_all
      ultimately show ?thesis by metis
    qed
  qed
qed

lemma cleanup_old_logs_syscalls:
  "\<exists>us. syscalls (snd (cleanup_old_logs t w p d)) = syscalls w @ map (Unlink p) us"
proof (cases "\<not> path_exists w p \<or> overflows d")
  case True
  then have "syscalls (snd (cleanup_old_logs t w p d)) = syscalls w @ map (Unlink p) []"
    by (auto simp add: cleanup_old_logs_cases)
  then show ?thesis by blast
next
  case False
  then show ?thesis using cleanup_loop_syscalls by (simp add: cleanup_old_logs_cases)
qed

lemma file_effects_ok:
  assumes "fst (file_effects t dt w c) = Inr u"
  shows "is_dir (snd (file_effects t dt w c)) ''logs'' \<and>
         (\<exists>us. syscalls (snd (file_effects t dt w c)) =
                 syscalls w @ Makedirs ''logs'' # map (Unlink ''logs'') us @ [Open (log_filepath_of dt c) ''a''])"
proof -
  obtain r1 w1 where m: "makedirs w ''logs'' = (r1, w1)" by (cases "makedirs w ''logs''")
  obtain r2 w2 where cl: "cleanup_old_logs t w1 ''logs'' (Some 7) = (r2, w2)"
    by (cases "cleanup_old_logs t w1 ''logs'' (Some 7)")
  obtain r3 w3 where op: "open_file t w2 (log_filepath_of dt c) ''a'' = (r3, w3)"
    by (cases "open_file t w2 (log_filepath_of dt c) ''a''")
  have r1: "r1 = Inr ()" using assms m by (cases r1) (simp_all add: file_effects_def)
  have r2: "r2 = Inr ()" using assms m cl r1 by (cases r2) (simp_all add: file_effects_def)
  have fe: "file_effects t dt w c = (r3, w3)" using m cl op r1 r2 by (simp add: file_effects_def)
  have d1: "is_dir w1 ''logs''" using makedirs_is_dir [of w "''logs''"] m r1 by simp
  have d2: "is_dir w2 ''logs''" using cleanup_old_logs_is_dir [OF d1, of t "''logs''" "Some 7"] cl by simp
  have d3: "is_dir w3 ''logs''" using open_file_is_dir [OF d2, of t "log_filepath_of dt c" "''a''"] op by simp
  have s1: "syscalls w1 = syscalls w @ [Makedirs ''logs'']" using makedirs_syscalls [of w "''logs''"] m by simp
  obtain us where s2: "syscalls w2 = syscalls w1 @ map (Unlink ''logs'') us"
    using cleanup_old_logs_syscalls [of t w1 "''logs''" "Some 7"] cl by auto
  have s3: "syscalls w3 = syscalls w2 @ [Open (log_filepath_of dt c) ''a'']"
    using open_file_syscalls [of t w2 "log_filepath_of dt c" "''a''"] op by simp
  have "syscalls w3 = syscalls w @ Makedirs ''logs'' # map (Unlink ''logs'') us @ [Open (log_filepath_of dt c) ''a'']"
    using s1 s2 s3 by simp
  then show ?thesis using d3 fe by auto
qed

lemma strftime_date:
  "strftime dt ''%Y%m%d'' = zfill 4 (digits (year dt)) @ zfill 2 (digits (month dt)) @ zfill 2 (digits (day dt))"
  by (simp add: directive_def)

lemma log_filepath_relative:
  assumes "c \<noteq> []" and "hd c \<noteq> CHR ''/''"
  shows "log_filepath_of dt c =
     ''logs/'' @ c @ ''-'' @ zfill 4 (digits (year dt)) @ zfill 2 (digits (month dt)) @ zfill 2 (digits (day dt)) @ ''.log''"
  using assms by (cases c) (simp_all add: log_filepath_of_def os_path_join_def strftime_date del: strftime.simps)

subsection \<open>Level names\<close>

lemma denotes_eval:
  "denotes v ''DEBUG'' \<longleftrightarrow> upper (strip v) = ''DEBUG''"
  "denotes v ''INFO'' \<longleftrightarrow> upper (strip v) = ''INFO''"
  "denotes v ''WARNING'' \<longleftrightarrow> upper (strip v) = ''WARNING''"
  "denotes v ''ERROR'' \<longleftrightarrow> upper (strip v) = ''ERROR''"
  "denotes v ''CRITICAL'' \<longleftrightarrow> upper (strip v) = ''CRITICAL''"
  by (rule denotes_iff; simp add: capitals_def)+

lemmas string_eval = upper_def strip_def isspace_def upper_char_def letter_pairs_def

subsection \<open>The format string\<close>

lemma formatTime_the_formatter:
  "formatTime tz r (datefmt the_formatter) = timestamp (tz (created r)) (msecs r)"
  by (simp add: formatTime_def the_formatter_def timestamp_def directive_def Let_def)

lemma percent_format_the_formatter:
  "percent_format (map_of [(''asctime'', t), (''levelname_short'', s), (''levelname'', n), (''message'', m)])
     (fmt the_formatter) = Inr (t @ '' ['' @ s @ ''] : '' @ m)"
  by (simp add: the_formatter_def percent_format.simps)

lemma level_map_code:
  "(case LEVEL_MAP (c # cs) of None \<Rightarrow> [c] | Some s \<Rightarrow> s) = [level_code (c # cs)]"
  by (simp add: LEVEL_MAP_def level_code_def)


subsection \<open>The shape of the timestamp\<close>

text \<open>
  For the values a clock gives (a year of at most four digits, the other fields of at
  most two, milliseconds from 0 up to but not including 1000) the timestamp has the 23
  characters of \<open>YYYY-MM-DD HH:MM:SS.mmm\<close> with the separators in their places.
\<close>

lemma digits_length: "n < 10 ^ k \<Longrightarrow> 0 < k \<Longrightarrow> length (digits n) \<le> k"
proof (induction k arbitrary: n)
  case 0
  then show ?case by simp
next
  case (Suc k)
  show ?case
  proof (cases "n < 10")
    case True
    then show ?thesis by (simp add: digits.simps)
  next
    case False
    then have k: "0 < k" using Suc.prems by (cases k) auto
    have "n div 10 < 10 ^ k" using Suc.prems by (simp add: less_mult_imp_div_less mult.commute)
    then have "length (digits (n div 10)) \<le> k" using Suc.IH k by simp
    then show ?thesis using False by (subst digits.simps) simp
  qed
qed

lemma zfill_length: "length s \<le> width \<Longrightarrow> length (zfill width s) = width"
  by (simp add: zfill_def)

lemma field_width_2: "n < 100 \<Longrightarrow> length (zfill 2 (digits n)) = 2"
  using digits_length [of n 2] by (simp add: zfill_length)

lemma field_width_4: "n < 10000 \<Longrightarrow> length (zfill 4 (digits n)) = 4"
  using digits_length [of n 4] by (simp add: zfill_length)

lemma format_03d_width: "0 \<le> ms \<Longrightarrow> ms < 1000 \<Longrightarrow> length (format_03d (py_int ms)) = 3"
proof -
  assume a: "0 \<le> ms" "ms < 1000"
  then have "\<lfloor>ms\<rfloor> < 1000" by (simp add: floor_less_iff)
  then have "nat \<lfloor>ms\<rfloor> < 1000" by arith
  then have "nat \<lfloor>ms\<rfloor> < 10 ^ 3" by simp
  then have "length (digits (nat \<lfloor>ms\<rfloor>)) \<le> 3" by (intro digits_length) simp_all
  then show ?thesis using a by (simp add: format_03d_def py_int_def zfill_length)
qed

lemma timestamp_shape:
  assumes "year ct < 10000" "month ct < 100" "day ct < 100" "hour ct < 100" "minute ct < 100" "second ct < 100"
    and "0 \<le> ms" "ms < 1000"
  shows "length (timestamp ct ms) = 23 \<and> timestamp ct ms ! 4 = CHR ''-'' \<and> timestamp ct ms ! 7 = CHR ''-'' \<and>
         timestamp ct ms ! 10 = CHR '' '' \<and> timestamp ct ms ! 13 = CHR '':'' \<and> timestamp ct ms ! 16 = CHR '':'' \<and>
         timestamp ct ms ! 19 = CHR ''.''"
  using assms by (simp add: timestamp_def field_width_2 field_width_4 format_03d_width nth_append)

subsection \<open>The calls of setup_logger in order\<close>

lemma makedirs_ok:
  assumes "fst (makedirs w p) = Inr u"
  shows "files (snd (makedirs w p)) p = Some (Dir (listdir w p))"
  using assms by (auto simp add: makedirs_def Let_def listdir_def split: option.splits node.splits)

lemma endswith_append: "endswith (xs @ suf) suf"
  by (simp add: endswith_def)

lemma stale_name_in_dir: "stale_name t es n \<Longrightarrow> n \<in> fst ` set es"
  by (auto simp add: stale_name_def split: option.splits dest: map_of_SomeD intro: rev_image_eqI)

lemma file_effects_syscalls:
  assumes ok: "fst (file_effects t dt w c) = Inr u"
    and dist: "distinct (map fst (listdir w ''logs''))"
    and statable: "\<forall>(n, e)\<in>set (listdir w ''logs''). endswith n ''.log'' \<longrightarrow> st_mtime e \<noteq> None"
  shows "syscalls (snd (file_effects t dt w c)) =
           syscalls w @ Makedirs ''logs'' #
             map (Unlink ''logs'')
               (filter (\<lambda>n. endswith n ''.log'' \<and> stale_name (cutoff t (Some 7)) (listdir w ''logs'') n)
                  (map fst (listdir w ''logs''))) @
             [Open (log_filepath_of dt c) ''a'']"
proof -
  obtain r1 w1 where m: "makedirs w ''logs'' = (r1, w1)" by (cases "makedirs w ''logs''")
  have r1: "r1 = Inr ()" using ok m by (cases r1) (simp_all add: file_effects_def)
  have f1: "files w1 ''logs'' = Some (Dir (listdir w ''logs''))"
    using makedirs_ok [of w "''logs''" "()"] m r1 by simp
  have s1: "syscalls w1 = syscalls w @ [Makedirs ''logs'']" using makedirs_syscalls [of w "''logs''"] m by simp
  note cl = cleanup_old_logs_result [OF f1 dist statable seven_days_fit(2), of t]
  show ?thesis
    using m r1 cl s1 by (simp add: file_effects_def open_file_syscalls)
qed

subsection \<open>The log file of the day after a call\<close>

lemma digits_chars: "set (digits n) \<subseteq> set ''0123456789''"
proof (induction n rule: digits.induct)
  case (1 n)
  show ?case
  proof (cases "n < 10")
    case True
    then have "n \<in> {0, 1, 2, 3, 4, 5, 6, 7, 8, 9}" by auto
    then show ?thesis using True by (subst digits.simps) auto
  next
    case False
    have "n mod 10 \<in> {0, 1, 2, 3, 4, 5, 6, 7, 8, 9}"
      using mod_less_divisor [of 10 n] by (simp del: mod_less_divisor) arith
    then have "''0123456789'' ! (n mod 10) \<in> set ''0123456789''" by auto
    then show ?thesis using False "1.IH" by (subst digits.simps) simp
  qed
qed

lemma zfill_chars: "set (zfill k (digits n)) \<subseteq> set ''0123456789''"
  using digits_chars [of n] by (auto simp add: zfill_def)

lemma date_no_slash: "CHR ''/'' \<notin> set (strftime dt ''%Y%m%d'')"
  using zfill_chars [of 4 "year dt"] zfill_chars [of 2 "month dt"] zfill_chars [of 2 "day dt"]
  by (auto simp add: directive_def)

lemma os_path_split_logs:
  assumes "CHR ''/'' \<notin> set f"
  shows "os_path_split (''logs/'' @ f) = (''logs'', f)"
proof -
  have "takeWhile (\<lambda>c. c \<noteq> CHR ''/'') (rev f @ ''/sgol'')
          = rev f @ takeWhile (\<lambda>c. c \<noteq> CHR ''/'') ''/sgol''"
    using assms by (intro takeWhile_append2) auto
  then have t: "takeWhile (\<lambda>c. c \<noteq> CHR ''/'') (rev f @ ''/sgol'') = rev f" by simp
  show ?thesis
    by (simp add: os_path_split_def Let_def t)
qed

lemma map_of_filter_distinct:
  "distinct (map fst es) \<Longrightarrow>
   map_of (filter P es) k = (case map_of es k of None \<Rightarrow> None | Some e \<Rightarrow> if P (k, e) then Some e else None)"
proof (induction es)
  case Nil
  show ?case by simp
next
  case (Cons x es)
  obtain k' e' where x: "x = (k', e')" by (cases x)
  have n: "map_of es k' = None" using Cons.prems x by (simp add: map_of_eq_None_iff)
  show ?case using Cons x n by (auto split: option.splits)
qed

lemma log_file_of_the_day:
  assumes c: "c \<noteq> []" and noslash: "CHR ''/'' \<notin> set c"
    and ok: "fst (file_effects t dt w c) = Inr u"
    and dist: "distinct (map fst (listdir w ''logs''))"
    and statable: "\<forall>(n, e)\<in>set (listdir w ''logs''). endswith n ''.log'' \<longrightarrow> st_mtime e \<noteq> None"
  shows "map_of (listdir (snd (file_effects t dt w c)) ''logs'') (c @ ''-'' @ strftime dt ''%Y%m%d'' @ ''.log'') =
     (case map_of (listdir w ''logs'') (c @ ''-'' @ strftime dt ''%Y%m%d'' @ ''.log'') of
        None \<Rightarrow> Some (fresh_file t)
      | Some e \<Rightarrow> if stale (cutoff t (Some 7)) e \<and> unlink_ok e then Some (fresh_file t) else Some e)"
proof -
  let ?f = "c @ ''-'' @ strftime dt ''%Y%m%d'' @ ''.log''"
  let ?es = "listdir w ''logs''"
  let ?P = "\<lambda>(k, e). \<not> (endswith k ''.log'' \<and> stale (cutoff t (Some 7)) e \<and> unlink_ok e)"
  let ?es' = "filter ?P ?es"
  obtain r1 w1 where m: "makedirs w ''logs'' = (r1, w1)" by (cases "makedirs w ''logs''")
  have r1: "r1 = Inr ()" using ok m by (cases r1) (simp_all add: file_effects_def)
  have f1: "files w1 ''logs'' = Some (Dir ?es)"
    using makedirs_ok [of w "''logs''" "()"] m r1 by simp
  note cl = cleanup_old_logs_result [OF f1 dist statable seven_days_fit(2), of t]
  let ?w2 = "snd (cleanup_old_logs t w1 ''logs'' (Some 7))"
  have f2: "files ?w2 ''logs'' = Some (Dir ?es')" unfolding cl by simp
  have fe: "file_effects t dt w c = open_file t ?w2 (log_filepath_of dt c) ''a''"
    using m r1 cl by (simp add: file_effects_def)
  have hd: "hd c \<noteq> CHR ''/''" using c noslash by (cases c) auto
  have p: "log_filepath_of dt c = ''logs/'' @ ?f"
    using c hd by (cases c) (simp_all add: log_filepath_of_def os_path_join_def del: strftime.simps)
  have nf: "CHR ''/'' \<notin> set ?f" using noslash date_no_slash [of dt] by (simp del: strftime.simps)
  have sp: "os_path_split (log_filepath_of dt c) = (''logs'', ?f)"
    unfolding p by (rule os_path_split_logs [OF nf])
  have e: "endswith ?f ''.log''"
    using endswith_append [of "c @ ''-'' @ strftime dt ''%Y%m%d''" "''.log''"] by simp
  have look: "map_of ?es' ?f =
      (case map_of ?es ?f of None \<Rightarrow> None
       | Some e \<Rightarrow> if stale (cutoff t (Some 7)) e \<and> unlink_ok e then None else Some e)"
    using e by (simp add: map_of_filter_distinct [OF dist] split: option.splits del: strftime.simps)
  show ?thesis
  proof (cases "map_of ?es' ?f")
    case None
    have "listdir (snd (file_effects t dt w c)) ''logs'' = ?es' @ [(?f, fresh_file t)]"
      unfolding fe using None f2 sp
      by (simp add: open_file_def Let_def listdir_def fresh_file_def del: strftime.simps)
    then have "map_of (listdir (snd (file_effects t dt w c)) ''logs'') ?f = Some (fresh_file t)"
      using None by (simp add: map_add_def del: strftime.simps)
    then show ?thesis using None look by (auto split: option.splits if_splits simp del: strftime.simps)
  next
    case (Some e')
    have "listdir (snd (file_effects t dt w c)) ''logs'' = ?es'"
      unfolding fe using Some f2 sp
      by (simp add: open_file_def Let_def listdir_def del: strftime.simps)
    then show ?thesis using Some look by (auto split: option.splits if_splits simp del: strftime.simps)
  qed
qed

subsection \<open>Evaluation on the examples\<close>

lemmas model_eval =
  setup_logger_def makedirs_def cleanup_old_logs_cases seven_days_fit cutoff_example open_file_def Let_def path_exists_def
  glob_log_def listdir_def endswith_def stat_mtime_def unlink_def os_path_join_def os_path_split_def
  directive_def zfill_def digits.simps getLogger_def logger_key_def log_level_of_def log_levels_def
  string_eval the_formatter_def

lemmas example_defs = env0_def world0_def day0_def world1_def world2_def world3_def world4_def logs0_def
  file_at_def record0_def record1_def

section \<open>Properties of cleanup_old_logs\<close>

text \<open>
  C6. On a directory path that does not exist the reaper returns normally, leaves every
  file and directory as it was and makes no call that could change the file system.
\<close>

theorem cleanup_old_logs_missing_dir:
  "\<not> path_exists w log_dir \<Longrightarrow> cleanup_old_logs current_time w log_dir days_arg = (Inr (), w)"
  by (simp add: cleanup_old_logs_def)

theorem cleanup_old_logs_missing_dir_witness:
  "\<not> path_exists \<lparr>files = Map.empty, syscalls = [], loggers = Map.empty\<rparr> ''logs'' \<and>
   cleanup_old_logs 1705314600 \<lparr>files = Map.empty, syscalls = [], loggers = Map.empty\<rparr> ''logs'' None
     = (Inr (), \<lparr>files = Map.empty, syscalls = [], loggers = Map.empty\<rparr>)"
proof -
  have h: "\<not> path_exists \<lparr>files = Map.empty, syscalls = [], loggers = Map.empty\<rparr> ''logs''"
    by (simp add: path_exists_def)
  show ?thesis
    using h cleanup_old_logs_missing_dir [OF h, of 1705314600 None] by simp
qed

text \<open>
  C1, as the code has it. When the directory exists, its names are distinct, \<open>stat\<close>
  works on every entry that matches \<open>*.log\<close> and the seconds of the retention window
  have a float, the reaper returns normally and the directory holds afterwards exactly the
  entries that were there, in their order, without those that match \<open>*.log\<close>, whose
  modification time as \<open>stat\<close> reports it is strictly before the cutoff (the float that
  line 22 computes for \<open>now - days * 24 * 60 * 60\<close>, seven days by default) and whose
  deletion succeeded. A matching entry at or after the cutoff stays, also one exactly at
  it; an entry that does not match stays; an old matching entry whose deletion failed
  stays; no other path changes.
\<close>

theorem cleanup_old_logs_removes:
  assumes "files w log_dir = Some (Dir es)"
    and "distinct (map fst es)"
    and "\<forall>(n, e)\<in>set es. endswith n ''.log'' \<longrightarrow> st_mtime e \<noteq> None"
    and "\<not> overflows days_arg"
  shows "fst (cleanup_old_logs now w log_dir days_arg) = Inr () \<and>
         listdir (snd (cleanup_old_logs now w log_dir days_arg)) log_dir =
           filter (\<lambda>(n, e). \<not> (endswith n ''.log'' \<and> stale (cutoff now days_arg) e \<and> unlink_ok e)) es \<and>
         (\<forall>q. q \<noteq> log_dir \<longrightarrow> files (snd (cleanup_old_logs now w log_dir days_arg)) q = files w q)"
  unfolding cleanup_old_logs_result [OF assms] by (simp add: listdir_def)

theorem cleanup_old_logs_removes_witness:
  "fst (cleanup_old_logs 1705314600 world1 ''logs'' None) = Inr () \<and>
   listdir (snd (cleanup_old_logs 1705314600 world1 ''logs'' None)) ''logs'' =
     [(''a.log'', file_at 0 False), (''c.log'', file_at 1704709800 True),
      (''d.log'', file_at 1705000000 True), (''notes.txt'', file_at 0 True)] \<and>
   files (snd (cleanup_old_logs 1705314600 world1 ''logs'' None)) ''data'' = files world1 ''data''"
proof -
  have 1: "files world1 ''logs'' = Some (Dir logs0)" by (simp add: world1_def)
  have 2: "distinct (map fst logs0)" by (simp add: logs0_def)
  have 3: "\<forall>(n, e)\<in>set logs0. endswith n ''.log'' \<longrightarrow> st_mtime e \<noteq> None"
    by (simp add: logs0_def file_at_def)
  show ?thesis
    using cleanup_old_logs_removes [OF 1 2 3 seven_days_fit(1), of 1705314600]
    by (simp add: logs0_def file_at_def endswith_def stale_def cutoff_example)
qed

text \<open>
  C1 as stated fails in two ways. In the example directory \<open>a.log\<close> matches the
  pattern and is older than the cutoff, but its deletion fails, so it is still there after
  the reaper has run. And for a window of \<open>10 ^ 400\<close> days the seconds have no float: line 22
  raises \<open>OverflowError\<close> and nothing is deleted.
\<close>

theorem cleanup_old_logs_keeps_undeletable:
  "endswith ''a.log'' ''.log'' \<and> stale (cutoff 1705314600 None) (file_at 0 False) \<and>
   map_of (listdir world1 ''logs'') ''a.log'' = Some (file_at 0 False) \<and>
   map_of (listdir (snd (cleanup_old_logs 1705314600 world1 ''logs'' None)) ''logs'') ''a.log'' = Some (file_at 0 False) \<and>
   listdir (snd (cleanup_old_logs 1705314600 world1 ''logs'' None)) ''logs'' \<noteq>
     filter (\<lambda>(n, e). \<not> (endswith n ''.log'' \<and> stale (cutoff 1705314600 None) e)) (listdir world1 ''logs'') \<and>
   cleanup_old_logs 1705314600 world1 ''logs'' (Some (10 ^ 400)) = (Inl OverflowError, world1)"
  by (simp add: cleanup_old_logs_cases seven_days_fit cutoff_example overflows_def path_exists_def glob_log_def
      listdir_def stat_mtime_def unlink_def world1_def logs0_def file_at_def endswith_def stale_def)



section \<open>Properties of setup_logger and get_logger\<close>

text \<open>
  C2. After a call of \<open>setup_logger\<close> the level of the logger is the level that
  \<open>LOG_LEVEL\<close> denotes (one of the five names, in any case, with whitespace around it),
  and \<open>INFO\<close> for any other value and when the variable is not set. The value of
  \<open>LOG_LEVEL\<close> never decides whether the call raises: the result is the same for any
  other value.
\<close>

theorem setup_logger_level:
  "lvl (getLogger (snd (setup_logger a w name command_name)) name) =
     (case LOG_LEVEL a of
        None \<Rightarrow> INFO
      | Some v \<Rightarrow>
          if denotes v ''DEBUG'' then DEBUG
          else if denotes v ''INFO'' then INFO
          else if denotes v ''WARNING'' then WARNING
          else if denotes v ''ERROR'' then ERROR
          else if denotes v ''CRITICAL'' then CRITICAL
          else INFO) \<and>
   fst (setup_logger (a\<lparr>LOG_LEVEL := other\<rparr>) w name command_name) = fst (setup_logger a w name command_name)"
proof
  have "lvl (getLogger (snd (setup_logger a w name command_name)) name) = log_level_of a"
    unfolding setup_logger_final_logger
    by (simp split: option.splits sum.splits)
  then show "lvl (getLogger (snd (setup_logger a w name command_name)) name) =
     (case LOG_LEVEL a of
        None \<Rightarrow> INFO
      | Some v \<Rightarrow>
          if denotes v ''DEBUG'' then DEBUG
          else if denotes v ''INFO'' then INFO
          else if denotes v ''WARNING'' then WARNING
          else if denotes v ''ERROR'' then ERROR
          else if denotes v ''CRITICAL'' then CRITICAL
          else INFO)"
    by (simp only: log_level_of_denotes)
  show "fst (setup_logger (a\<lparr>LOG_LEVEL := other\<rparr>) w name command_name) = fst (setup_logger a w name command_name)"
    by (simp add: setup_logger_result split: option.splits)
qed

theorem setup_logger_level_witness:
  "lvl (getLogger (snd (setup_logger env0 world0 (Some ''csa'') None)) (Some ''csa'')) = WARNING \<and>
   lvl (getLogger (snd (setup_logger (env0\<lparr>LOG_LEVEL := Some ''verbose''\<rparr>) world0 (Some ''csa'') None)) (Some ''csa'')) = INFO \<and>
   lvl (getLogger (snd (setup_logger (env0\<lparr>LOG_LEVEL := None\<rparr>) world0 (Some ''csa'') None)) (Some ''csa'')) = INFO \<and>
   fst (setup_logger (env0\<lparr>LOG_LEVEL := Some ''verbose''\<rparr>) world0 (Some ''csa'') (Some ''analyze''))
     = fst (setup_logger env0 world0 (Some ''csa'') (Some ''analyze''))"
proof -
  have 1: "denotes [CHR 0x20, CHR ''w'', CHR ''a'', CHR ''R'', CHR ''n'', CHR ''i'', CHR ''n'', CHR ''g'', CHR 0x0A] ''WARNING''"
    "\<not> denotes [CHR 0x20, CHR ''w'', CHR ''a'', CHR ''R'', CHR ''n'', CHR ''i'', CHR ''n'', CHR ''g'', CHR 0x0A] ''DEBUG''"
    "\<not> denotes [CHR 0x20, CHR ''w'', CHR ''a'', CHR ''R'', CHR ''n'', CHR ''i'', CHR ''n'', CHR ''g'', CHR 0x0A] ''INFO''"
    by (simp_all add: denotes_eval string_eval)
  have 2: "\<not> denotes ''verbose'' ''DEBUG''" "\<not> denotes ''verbose'' ''INFO''" "\<not> denotes ''verbose'' ''WARNING''"
    "\<not> denotes ''verbose'' ''ERROR''" "\<not> denotes ''verbose'' ''CRITICAL''"
    by (simp_all add: denotes_eval string_eval)
  show ?thesis
    using setup_logger_level [of env0 world0 "Some ''csa''" None "Some ''verbose''"]
      setup_logger_level [of "env0\<lparr>LOG_LEVEL := Some ''verbose''\<rparr>" world0 "Some ''csa''" None None]
      setup_logger_level [of "env0\<lparr>LOG_LEVEL := None\<rparr>" world0 "Some ''csa''" None None]
      setup_logger_level [of env0 world0 "Some ''csa''" "Some ''analyze''" "Some ''verbose''"]
    by (simp add: env0_def 1 2)
qed

text \<open>
  C10. \<open>get_logger\<close> is \<open>setup_logger\<close>: the same result and the same world for all
  arguments, so every call rebuilds the handlers.
\<close>

theorem get_logger_is_setup_logger:
  "get_logger a w name command_name = setup_logger a w name command_name"
  by (simp add: get_logger_def)

theorem get_logger_is_setup_logger_witness:
  "get_logger env0 world0 (Some ''csa'') (Some ''analyze'') = setup_logger env0 world0 (Some ''csa'') (Some ''analyze'')"
  by (rule get_logger_is_setup_logger)

text \<open>
  C8. A call without a command identifier (\<open>None\<close> or the empty string) returns normally,
  leaves every file and directory as it was and makes no call that could change the file
  system: no directory is created, no file is opened, nothing is deleted.
\<close>

theorem setup_logger_without_command:
  assumes "command_name = None \<or> command_name = Some []"
  shows "files (snd (setup_logger a w name command_name)) = files w \<and>
         syscalls (snd (setup_logger a w name command_name)) = syscalls w \<and>
         fst (setup_logger a w name command_name) = Inr (logger_key name)"
  using assms by (auto simp add: setup_logger_no_command)

theorem setup_logger_without_command_witness:
  "files (snd (setup_logger env0 world0 (Some ''csa'') None)) = files world0 \<and>
   syscalls (snd (setup_logger env0 world0 (Some ''csa'') None)) = syscalls world0 \<and>
   fst (setup_logger env0 world0 (Some ''csa'') None) = Inr ''csa'' \<and>
   files (snd (setup_logger env0 world0 (Some ''csa'') (Some []))) = files world0 \<and>
   syscalls (snd (setup_logger env0 world0 (Some ''csa'') (Some []))) = syscalls world0"
  using setup_logger_without_command [of None env0 world0 "Some ''csa''"]
    setup_logger_without_command [of "Some []" env0 world0 "Some ''csa''"]
  by (simp add: logger_key_def)

text \<open>
  C3, as the code has it. Calls of \<open>setup_logger\<close> for one name do not pile up
  handlers. After any number of earlier calls, a call leaves the logger with the console
  handler of this call and, when a command identifier was given and the call returned
  normally, the file handler of this call, and with nothing else. So there is always one
  console handler; there is one file handler after a normal return with a command
  identifier, and none when there was no command identifier or the call raised.
\<close>

theorem setup_logger_sinks:
  "handlers (getLogger (snd (setup_logger a (setup_many w name calls) name command_name)) name) =
     \<lparr>sink = StreamHandler, hlevel = log_level_of a, hformatter = Some the_formatter\<rparr> #
     (case command_name of
        None \<Rightarrow> []
      | Some c \<Rightarrow>
          if c = [] then []
          else (case fst (setup_logger a (setup_many w name calls) name command_name) of
                  Inl e \<Rightarrow> []
                | Inr k \<Rightarrow>
                    [\<lparr>sink = FileHandler (os_path_join ''logs'' (c @ ''-'' @ strftime (datetime_now a) ''%Y%m%d'' @ ''.log''))
                                ''a'' ''utf-8'',
                      hlevel = log_level_of a, hformatter = Some the_formatter\<rparr>]))
   \<and> length (filter is_console (handlers (getLogger (snd (setup_logger a (setup_many w name calls) name command_name)) name))) = 1
   \<and> length (filter is_file (handlers (getLogger (snd (setup_logger a (setup_many w name calls) name command_name)) name)))
       = (case command_name of
            None \<Rightarrow> 0
          | Some c \<Rightarrow>
              if c = [] then 0
              else (case fst (setup_logger a (setup_many w name calls) name command_name) of Inl e \<Rightarrow> 0 | Inr k \<Rightarrow> 1))"
proof -
  let ?w = "setup_many w name calls"
  show ?thesis
  proof (cases command_name)
    case None
    then show ?thesis
      by (simp add: setup_logger_final_logger console_of_def is_console_def is_file_def)
  next
    case (Some c)
    show ?thesis
    proof (cases "c = []")
      case True
      then show ?thesis using Some
        by (simp add: setup_logger_final_logger console_of_def is_console_def is_file_def)
    next
      case False
      show ?thesis
      proof (cases "fst (file_effects (time_time a) (datetime_now a) ?w c)")
        case (Inl e)
        then show ?thesis using False Some
          by (simp add: setup_logger_final_logger setup_logger_result console_of_def
              is_console_def is_file_def del: strftime.simps)
      next
        case (Inr u)
        then show ?thesis using False Some
          by (simp add: setup_logger_final_logger setup_logger_result console_of_def file_sink_of_def
              log_filepath_of_def is_console_def is_file_def del: strftime.simps)
      qed
    qed
  qed
qed

theorem setup_logger_sinks_witness:
  "handlers (getLogger (snd (setup_logger env0
       (setup_many world0 (Some ''csa'') [(env0, Some ''analyze''), (env0, Some ''sequence''), (env0, None)])
       (Some ''csa'') (Some ''analyze''))) (Some ''csa'')) =
     [\<lparr>sink = StreamHandler, hlevel = WARNING, hformatter = Some the_formatter\<rparr>,
      \<lparr>sink = FileHandler ''logs/analyze-20240115.log'' ''a'' ''utf-8'', hlevel = WARNING,
        hformatter = Some the_formatter\<rparr>] \<and>
   length (filter is_console (handlers (getLogger (snd (setup_logger env0
       (setup_many world0 (Some ''csa'') [(env0, Some ''analyze''), (env0, Some ''sequence''), (env0, None)])
       (Some ''csa'') (Some ''analyze''))) (Some ''csa'')))) = 1 \<and>
   length (filter is_file (handlers (getLogger (snd (setup_logger env0
       (setup_many world0 (Some ''csa'') [(env0, Some ''analyze''), (env0, Some ''sequence''), (env0, None)])
       (Some ''csa'') (Some ''analyze''))) (Some ''csa'')))) = 1"
proof -
  have ok: "fst (setup_logger env0
       (setup_many world0 (Some ''csa'') [(env0, Some ''analyze''), (env0, Some ''sequence''), (env0, None)])
       (Some ''csa'') (Some ''analyze'')) = Inr ''csa''"
    by (simp add: model_eval example_defs)
  have lv: "log_level_of env0 = WARNING"
    by (simp add: log_level_of_def log_levels_def string_eval env0_def)
  have dn: "datetime_now env0 = day0" by (simp add: env0_def)
  show ?thesis
    using setup_logger_sinks [of env0 world0 "Some ''csa''"
        "[(env0, Some ''analyze''), (env0, Some ''sequence''), (env0, None)]" "Some ''analyze''"]
    unfolding ok
    by (simp add: lv dn day0_def os_path_join_def directive_def zfill_def digits.simps is_console_def is_file_def)
qed

text \<open>
  C3 as stated fails when the last call raises: with \<open>logs\<close> a regular file,
  \<open>os.makedirs\<close> raises, and the logger is left with the console handler and no file
  handler although a command identifier was given.
\<close>

theorem setup_logger_raises_without_file_sink:
  "fst (setup_logger env0 world4 (Some ''csa'') (Some ''analyze'')) = Inl OSError \<and>
   handlers (getLogger (snd (setup_logger env0 world4 (Some ''csa'') (Some ''analyze''))) (Some ''csa'')) =
     [\<lparr>sink = StreamHandler, hlevel = WARNING, hformatter = Some the_formatter\<rparr>] \<and>
   length (filter is_file
     (handlers (getLogger (snd (setup_logger env0 world4 (Some ''csa'') (Some ''analyze''))) (Some ''csa'')))) = 0"
  by (simp add: model_eval example_defs world4_def is_file_def)

text \<open>
  C5, as the code has it. A call with a command identifier \<open>c\<close> that is not empty and
  does not start with a slash, and that returns normally, leaves \<open>logs\<close> a directory,
  has opened \<open>logs/c-YYYYMMDD.log\<close> in append mode as its last file system call, and
  has attached a file handler on that path with mode \<open>a\<close> and encoding \<open>utf-8\<close>, at the
  level and with the formatter of the console handler. The date is the local date of
  \<open>datetime.now()\<close>, the year padded to four digits, month and day to two.
\<close>

theorem setup_logger_file_sink:
  assumes c: "c \<noteq> []" and rel: "hd c \<noteq> CHR ''/''"
    and ok: "fst (setup_logger a w name (Some c)) = Inr k"
  shows "is_dir (snd (setup_logger a w name (Some c))) ''logs'' \<and>
         handlers (getLogger (snd (setup_logger a w name (Some c))) name) =
           [\<lparr>sink = StreamHandler, hlevel = log_level_of a, hformatter = Some the_formatter\<rparr>,
            \<lparr>sink = FileHandler
                      (''logs/'' @ c @ ''-'' @ zfill 4 (digits (year (datetime_now a))) @
                         zfill 2 (digits (month (datetime_now a))) @ zfill 2 (digits (day (datetime_now a))) @ ''.log'')
                      ''a'' ''utf-8'',
              hlevel = log_level_of a, hformatter = Some the_formatter\<rparr>] \<and>
         last (syscalls (snd (setup_logger a w name (Some c)))) =
           Open (''logs/'' @ c @ ''-'' @ zfill 4 (digits (year (datetime_now a))) @
                   zfill 2 (digits (month (datetime_now a))) @ zfill 2 (digits (day (datetime_now a))) @ ''.log'') ''a''"
proof -
  obtain u where fe: "fst (file_effects (time_time a) (datetime_now a) w c) = Inr u"
    using ok c by (auto simp add: setup_logger_result split: sum.splits)
  note p = log_filepath_relative [OF c rel, of "datetime_now a"]
  obtain us where d: "is_dir (snd (file_effects (time_time a) (datetime_now a) w c)) ''logs''"
    and s: "syscalls (snd (file_effects (time_time a) (datetime_now a) w c)) =
        syscalls w @ Makedirs ''logs'' # map (Unlink ''logs'') us @ [Open (log_filepath_of (datetime_now a) c) ''a'']"
    using file_effects_ok [OF fe] by blast
  have 1: "is_dir (snd (setup_logger a w name (Some c))) ''logs''"
    using d c by (simp add: is_dir_def setup_logger_world)
  have 2: "handlers (getLogger (snd (setup_logger a w name (Some c))) name) = [console_of a, file_sink_of a c]"
    using fe c by (simp add: setup_logger_final_logger)
  have 3: "last (syscalls (snd (setup_logger a w name (Some c)))) = Open (log_filepath_of (datetime_now a) c) ''a''"
    using s c by (simp add: setup_logger_world)
  show ?thesis using 1 2 3 unfolding console_of_def file_sink_of_def p by simp
qed

theorem setup_logger_file_sink_witness:
  "is_dir (snd (setup_logger env0 world0 (Some ''csa'') (Some ''analyze''))) ''logs'' \<and>
   handlers (getLogger (snd (setup_logger env0 world0 (Some ''csa'') (Some ''analyze''))) (Some ''csa'')) =
     [\<lparr>sink = StreamHandler, hlevel = WARNING, hformatter = Some the_formatter\<rparr>,
      \<lparr>sink = FileHandler ''logs/analyze-20240115.log'' ''a'' ''utf-8'', hlevel = WARNING,
        hformatter = Some the_formatter\<rparr>] \<and>
   last (syscalls (snd (setup_logger env0 world0 (Some ''csa'') (Some ''analyze'')))) =
     Open ''logs/analyze-20240115.log'' ''a''"
proof -
  have ok: "fst (setup_logger env0 world0 (Some ''csa'') (Some ''analyze'')) = Inr ''csa''"
    by (simp add: model_eval example_defs)
  have c: "''analyze'' \<noteq> []" "hd ''analyze'' \<noteq> CHR ''/''" by simp_all
  have lv: "log_level_of env0 = WARNING"
    by (simp add: log_level_of_def log_levels_def string_eval env0_def)
  show ?thesis
    using setup_logger_file_sink [OF c ok]
    by (simp add: lv) (simp add: env0_def day0_def zfill_def digits.simps)
qed

text \<open>
  C5 as stated fails for a command identifier that starts with a slash:
  \<open>os.path.join\<close> drops the directory \<open>logs\<close>, and the file handler opens
  \<open>/tmp/x-20240115.log\<close>, not a file under \<open>logs\<close>.
\<close>

theorem setup_logger_absolute_command:
  "fst (setup_logger env0 world3 (Some ''csa'') (Some ''/tmp/x'')) = Inr ''csa'' \<and>
   handlers (getLogger (snd (setup_logger env0 world3 (Some ''csa'') (Some ''/tmp/x''))) (Some ''csa'')) =
     [\<lparr>sink = StreamHandler, hlevel = WARNING, hformatter = Some the_formatter\<rparr>,
      \<lparr>sink = FileHandler ''/tmp/x-20240115.log'' ''a'' ''utf-8'', hlevel = WARNING,
        hformatter = Some the_formatter\<rparr>] \<and>
   ''/tmp/x-20240115.log'' \<noteq> ''logs/'' @ ''/tmp/x'' @ ''-'' @ ''20240115'' @ ''.log'' \<and>
   listdir (snd (setup_logger env0 world3 (Some ''csa'') (Some ''/tmp/x''))) ''logs'' = []"
  by (simp add: model_eval example_defs)

text \<open>
  C9, as the code has it. Take a call with a command identifier that is not empty and has
  no slash, that returns normally, on a \<open>logs\<close> directory with distinct names on whose
  matching entries \<open>stat\<close> works. The calls that can change the file system are, in this
  order: \<open>makedirs\<close>, the \<open>unlink\<close> calls of the reaper, and last the \<open>open\<close> of the
  log file of the day: the reaper has finished before the file is opened. The log file of
  the day is among the files the reaper tries to delete exactly when it is already in the
  directory with a modification time before the cutoff of seven days. After the call the
  file is a new, empty one when there was none before or when the reaper deleted the old
  one; it is the old one when that was not stale or its deletion failed.
\<close>

theorem setup_logger_reaps_before_open:
  assumes c: "c \<noteq> []" and noslash: "CHR ''/'' \<notin> set c"
    and ok: "fst (setup_logger a w name (Some c)) = Inr k"
    and dist: "distinct (map fst (listdir w ''logs''))"
    and statable: "\<forall>(n, e)\<in>set (listdir w ''logs''). endswith n ''.log'' \<longrightarrow> st_mtime e \<noteq> None"
  shows "syscalls (snd (setup_logger a w name (Some c))) =
           syscalls w @ Makedirs ''logs'' #
             map (Unlink ''logs'')
               (filter (\<lambda>n. endswith n ''.log'' \<and> stale_name (cutoff (time_time a) (Some 7)) (listdir w ''logs'') n)
                  (map fst (listdir w ''logs''))) @
             [Open (''logs/'' @ c @ ''-'' @ strftime (datetime_now a) ''%Y%m%d'' @ ''.log'') ''a''] \<and>
         (Unlink ''logs'' (c @ ''-'' @ strftime (datetime_now a) ''%Y%m%d'' @ ''.log'')
            \<in> set (drop (length (syscalls w)) (syscalls (snd (setup_logger a w name (Some c)))))
          \<longleftrightarrow> stale_name (cutoff (time_time a) (Some 7)) (listdir w ''logs'')
                (c @ ''-'' @ strftime (datetime_now a) ''%Y%m%d'' @ ''.log'')) \<and>
         map_of (listdir (snd (setup_logger a w name (Some c))) ''logs'')
             (c @ ''-'' @ strftime (datetime_now a) ''%Y%m%d'' @ ''.log'') =
           (case map_of (listdir w ''logs'') (c @ ''-'' @ strftime (datetime_now a) ''%Y%m%d'' @ ''.log'') of
              None \<Rightarrow> Some (fresh_file (time_time a))
            | Some e \<Rightarrow>
                if stale (cutoff (time_time a) (Some 7)) e \<and> unlink_ok e then Some (fresh_file (time_time a))
                else Some e)"
proof -
  let ?f = "c @ ''-'' @ strftime (datetime_now a) ''%Y%m%d'' @ ''.log''"
  let ?us = "filter (\<lambda>n. endswith n ''.log'' \<and> stale_name (cutoff (time_time a) (Some 7)) (listdir w ''logs'') n)
                  (map fst (listdir w ''logs''))"
  obtain u where fe: "fst (file_effects (time_time a) (datetime_now a) w c) = Inr u"
    using ok c by (auto simp add: setup_logger_result split: sum.splits)
  have hd: "hd c \<noteq> CHR ''/''" using c noslash by (cases c) auto
  have p: "log_filepath_of (datetime_now a) c = ''logs/'' @ ?f"
    using c hd by (cases c) (simp_all add: log_filepath_of_def os_path_join_def del: strftime.simps)
  have s: "syscalls (snd (setup_logger a w name (Some c))) =
      syscalls w @ Makedirs ''logs'' # map (Unlink ''logs'') ?us @ [Open (''logs/'' @ ?f) ''a'']"
    using file_effects_syscalls [OF fe dist statable] c p
    by (simp add: setup_logger_world del: strftime.simps)
  have e: "endswith ?f ''.log''"
    using endswith_append [of "c @ ''-'' @ strftime (datetime_now a) ''%Y%m%d''" "''.log''"] by simp
  have "Unlink ''logs'' ?f \<in> set (drop (length (syscalls w)) (syscalls (snd (setup_logger a w name (Some c)))))
        \<longleftrightarrow> ?f \<in> set ?us"
    unfolding s by auto
  also have "\<dots> \<longleftrightarrow> stale_name (cutoff (time_time a) (Some 7)) (listdir w ''logs'') ?f"
    using e stale_name_in_dir [of "cutoff (time_time a) (Some 7)" "listdir w ''logs''" ?f] by auto
  finally have m: "Unlink ''logs'' ?f \<in> set (drop (length (syscalls w)) (syscalls (snd (setup_logger a w name (Some c)))))
        \<longleftrightarrow> stale_name (cutoff (time_time a) (Some 7)) (listdir w ''logs'') ?f" .
  have l: "listdir (snd (setup_logger a w name (Some c))) ''logs''
         = listdir (snd (file_effects (time_time a) (datetime_now a) w c)) ''logs''"
    using c by (simp add: listdir_def setup_logger_world)
  note d = log_file_of_the_day [OF c noslash fe dist statable]
  show ?thesis using s m d unfolding l by blast
qed

theorem setup_logger_reaps_before_open_witness:
  "syscalls (snd (setup_logger env0 world1 (Some ''csa'') (Some ''analyze''))) =
     [Makedirs ''logs'', Unlink ''logs'' ''a.log'', Unlink ''logs'' ''b.log'', Open ''logs/analyze-20240115.log'' ''a''] \<and>
   Unlink ''logs'' ''analyze-20240115.log''
     \<notin> set (syscalls (snd (setup_logger env0 world1 (Some ''csa'') (Some ''analyze'')))) \<and>
   map_of (listdir (snd (setup_logger env0 world1 (Some ''csa'') (Some ''analyze''))) ''logs'') ''analyze-20240115.log''
     = Some (fresh_file 1705314600)"
proof -
  have ok: "fst (setup_logger env0 world1 (Some ''csa'') (Some ''analyze'')) = Inr ''csa''"
    by (simp add: model_eval example_defs)
  have l: "listdir world1 ''logs'' = logs0" by (simp add: listdir_def world1_def)
  have dist: "distinct (map fst (listdir world1 ''logs''))" by (simp add: l) (simp add: logs0_def)
  have statable: "\<forall>(n, e)\<in>set (listdir world1 ''logs''). endswith n ''.log'' \<longrightarrow> st_mtime e \<noteq> None"
    by (simp add: l) (simp add: logs0_def file_at_def)
  have c: "''analyze'' \<noteq> []" "CHR ''/'' \<notin> set ''analyze''" by simp_all
  have s: "syscalls (snd (setup_logger env0 world1 (Some ''csa'') (Some ''analyze''))) =
     [Makedirs ''logs'', Unlink ''logs'' ''a.log'', Unlink ''logs'' ''b.log'', Open ''logs/analyze-20240115.log'' ''a'']"
    using setup_logger_reaps_before_open [OF c ok dist statable, THEN conjunct1]
    by (simp add: l) (simp add: logs0_def file_at_def endswith_def stale_name_def stale_def cutoff_example
        env0_def day0_def world1_def directive_def zfill_def digits.simps)
  have f: "map_of (listdir (snd (setup_logger env0 world1 (Some ''csa'') (Some ''analyze''))) ''logs'')
             ''analyze-20240115.log'' = Some (fresh_file 1705314600)"
    using setup_logger_reaps_before_open [OF c ok dist statable, THEN conjunct2, THEN conjunct2]
    by (simp add: l) (simp add: logs0_def env0_def day0_def directive_def zfill_def digits.simps)
  show ?thesis unfolding s using f by simp
qed

text \<open>
  C9 as stated fails where it says that the file about to be written is never a deletion
  candidate: a log file of the day with a modification time of 1970 is deleted by the
  reaper and then created again, empty, by the \<open>open\<close>.
\<close>

theorem setup_logger_reaps_todays_file:
  "map_of (listdir world2 ''logs'') ''analyze-20240115.log'' = Some (file_at 0 True) \<and>
   fst (setup_logger env0 world2 (Some ''csa'') (Some ''analyze'')) = Inr ''csa'' \<and>
   syscalls (snd (setup_logger env0 world2 (Some ''csa'') (Some ''analyze''))) =
     [Makedirs ''logs'', Unlink ''logs'' ''analyze-20240115.log'', Open ''logs/analyze-20240115.log'' ''a''] \<and>
   listdir (snd (setup_logger env0 world2 (Some ''csa'') (Some ''analyze''))) ''logs'' =
     [(''analyze-20240115.log'', \<lparr>st_mtime = Some 1705314600, unlink_ok = True, open_ok = True, content = []\<rparr>)]"
  by (simp add: model_eval example_defs)

section \<open>Properties of CustomFormatter\<close>

text \<open>
  C4, as the code has it. For every record with a level name that is not empty and a local
  time in a year from 1000 to 9999, the formatter renders \<open>timestamp [code] : message\<close>,
  followed on lines of their own by the exception text and the stack trace when the record
  has any. The timestamp is the local time of the record as \<open>YYYY-MM-DD HH:MM:SS\<close>, a
  dot and the attribute \<open>msecs\<close> of the record, cut to a whole number and padded to three
  digits. The code is D, I, W, E or C for the five standard level names and the first
  character of the level name for any other.
\<close>

theorem CustomFormatter_format_line:
  assumes "levelname r \<noteq> []"
    and "1000 \<le> year (tz (created r))" and "year (tz (created r)) \<le> 9999"
  shows "CustomFormatter_format tz the_formatter r =
     Inr (add_line (add_line
            (timestamp (tz (created r)) (msecs r) @ '' ['' @ [level_code (levelname r)] @ ''] : '' @ message r)
            (exc_text r)) (stack_info r))"
proof -
  obtain c cs where n: "levelname r = c # cs" using assms(1) by (cases "levelname r") auto
  show ?thesis
    unfolding CustomFormatter_format_def n list.case level_map_code Formatter_format_def Let_def
      formatTime_the_formatter percent_format_the_formatter [unfolded n]
    by (simp add: n)
qed

theorem CustomFormatter_format_line_witness:
  "CustomFormatter_format (\<lambda>t. day0) the_formatter record0 = Inr ''2024-01-15 10:30:00.500 [W] : disk is full''"
proof -
  have n: "levelname record0 \<noteq> []" by (simp add: record0_def)
  have y: "1000 \<le> year ((\<lambda>t. day0) (created record0))" "year ((\<lambda>t. day0) (created record0)) \<le> 9999"
    by (simp_all add: day0_def)
  show ?thesis
    using CustomFormatter_format_line [OF n y]
    by (simp add: record0_def day0_def timestamp_def level_code_def add_line_def zfill_def digits.simps
        format_03d_def py_int_def)
qed

text \<open>
  C4 as stated fails in two ways. A record whose level is none of the five gets another
  code: \<open>logger.log(25, ...)\<close> makes a record with the level name \<open>Level 25\<close>, and its
  code is L. And the milliseconds are those of the attribute \<open>msecs\<close>, cut off: for the
  record that logging makes at 10:30:00.123 the line shows 122.
\<close>

theorem CustomFormatter_format_other_level:
  "CustomFormatter_format (\<lambda>t. day0) the_formatter (record0\<lparr>levelname := ''Level 25''\<rparr>)
     = Inr ''2024-01-15 10:30:00.500 [L] : disk is full'' \<and>
   CHR ''L'' \<notin> set ''DIWEC'' \<and>
   CustomFormatter_format (\<lambda>t. day0) the_formatter record1
     = Inr ''2024-01-15 10:30:00.122 [W] : disk is full''"
  by (simp add: CustomFormatter_format_def Formatter_format_def the_formatter_def record0_def record1_def day0_def
      LEVEL_MAP_def formatTime_def percent_format.simps directive_def zfill_def digits.simps
      format_03d_def py_int_def add_line_def)

end
